theory Spec2Isabelle
  imports Complex_Main
begin

section \<open>Conventions of the embedding\<close>

text \<open>
  The Python sources are embedded shallowly. Python \<open>int\<close> is \<^typ>\<open>int\<close>, \<open>str\<close> is
  \<^typ>\<open>string\<close> (characters read as code points below 256), \<open>Optional[T]\<close> is
  \<^typ>\<open>'a option\<close>. A \<open>dict\<close> whose iteration order is used is an association list in
  insertion order; a \<open>dict\<close> that is only looked up is a map. Every \<open>raise\<close> is a value
  \<open>Inl e\<close> of a sum type. The results of \<open>uuid.uuid4()\<close> and \<open>datetime.now()\<close> are
  arguments of the function that makes the call. A Python \<open>float\<close> is a rational number
  (every float the claims evaluate is exactly representable), and \<open>int(f)\<close> truncates
  toward zero.
\<close>

type_synonym datetime = int

datatype py_error =
    ValueError string
  | AttributeError string
  | FileNotFoundError string
  | IsADirectoryError string
  | JSONDecodeError
  | IndexError
  | OSError string

section \<open>core/models.py\<close>

record BoundingBox =
  box_x :: int
  box_y :: int
  box_width :: int
  box_height :: int

record Annotation =
  ann_id :: string
  bounding_box :: "BoundingBox option"
  label_id :: int
  label_name :: string
  image_id :: string
  created_at :: datetime
  modified_at :: datetime

record ImageMetadata =
  img_id :: string
  file_path :: string
  filename :: string
  img_width :: int
  img_height :: int
  img_format :: string
  annotations :: "Annotation list"

text \<open>\<open>BoundingBox.contains_point\<close>: inclusive on both edges.\<close>

definition contains_point :: "BoundingBox \<Rightarrow> int \<Rightarrow> int \<Rightarrow> bool" where
  "contains_point b px py \<longleftrightarrow>
     box_x b \<le> px \<and> px \<le> box_x b + box_width b \<and>
     box_y b \<le> py \<and> py \<le> box_y b + box_height b"

text \<open>\<open>Annotation.update_box\<close> and \<open>Annotation.update_label\<close>; \<open>now\<close> is the reading of
  \<open>datetime.now()\<close> inside the method.\<close>

definition update_box :: "Annotation \<Rightarrow> BoundingBox \<Rightarrow> datetime \<Rightarrow> Annotation" where
  "update_box a b now = a\<lparr>bounding_box := Some b, modified_at := now\<rparr>"

definition update_label :: "Annotation \<Rightarrow> int \<Rightarrow> string \<Rightarrow> datetime \<Rightarrow> Annotation" where
  "update_label a lid lname now = a\<lparr>label_id := lid, label_name := lname, modified_at := now\<rparr>"

text \<open>\<open>ImageMetadata.add_annotation\<close>: \<open>self.annotations.append(annotation)\<close>.\<close>

definition add_annotation :: "ImageMetadata \<Rightarrow> Annotation \<Rightarrow> ImageMetadata" where
  "add_annotation img a = img\<lparr>annotations := annotations img @ [a]\<rparr>"

section \<open>Python strings\<close>

text \<open>\<open>str.isspace\<close> on one character: the whitespace code points below 256.\<close>

definition py_isspace :: "char \<Rightarrow> bool" where
  "py_isspace c \<longleftrightarrow> (of_char c :: nat) \<in> {9, 10, 11, 12, 13, 28, 29, 30, 31, 32, 133, 160}"

text \<open>\<open>str.strip()\<close> with no argument.\<close>

definition py_strip :: "string \<Rightarrow> string" where
  "py_strip s = rev (dropWhile py_isspace (rev (dropWhile py_isspace s)))"

text \<open>A string that is empty or consists of whitespace only.\<close>

definition blank :: "string \<Rightarrow> bool" where
  "blank s \<longleftrightarrow> (\<forall>c \<in> set s. py_isspace c)"

section \<open>core/annotation\_manager.py\<close>

record AnnotationManager =
  mgr_annotations :: "string \<rightharpoonup> Annotation"
  validation_enabled :: bool

text \<open>\<open>AnnotationManager.__init__\<close>.\<close>

definition new_manager :: "bool \<Rightarrow> AnnotationManager" where
  "new_manager v = \<lparr>mgr_annotations = Map.empty, validation_enabled = v\<rparr>"

text \<open>\<open>validate_annotation\<close>. A \<open>BoundingBox\<close> instance is always truthy (the dataclass
  defines neither \<open>__bool__\<close> nor \<open>__len__\<close>), so \<open>not annotation.bounding_box\<close> holds
  exactly for \<open>None\<close>.\<close>

definition validate_annotation :: "Annotation \<Rightarrow> bool \<times> string" where
  "validate_annotation a =
     (if label_id a \<le> 0 then (False, ''Label ID must be positive'')
      else if label_name a = [] \<or> py_strip (label_name a) = []
        then (False, ''Label name cannot be empty'')
      else (case bounding_box a of
              None \<Rightarrow> (False, ''Bounding box is required'')
            | Some b \<Rightarrow>
                if box_width b \<le> 0 \<or> box_height b \<le> 0
                then (False, ''Bounding box must have positive width and height'')
                else (True, [])))"

text \<open>\<open>create_annotation\<close>. \<open>new_id\<close> is the value of \<open>uuid.uuid4()\<close> taken by the
  dataclass default, \<open>t1\<close> and \<open>t2\<close> the two readings of \<open>datetime.now()\<close>. The result
  pairs the outcome with the manager after the call.\<close>

definition create_annotation ::
  "AnnotationManager \<Rightarrow> string \<Rightarrow> datetime \<Rightarrow> datetime \<Rightarrow>
   string \<Rightarrow> BoundingBox option \<Rightarrow> int \<Rightarrow> string \<Rightarrow>
   (py_error + Annotation) \<times> AnnotationManager" where
  "create_annotation m new_id t1 t2 iid box lid lname =
     (let annotation = \<lparr>ann_id = new_id, bounding_box = box, label_id = lid,
                         label_name = lname, image_id = iid,
                         created_at = t1, modified_at = t2\<rparr>
      in if validation_enabled m \<and> \<not> fst (validate_annotation annotation)
         then (Inl (ValueError (''Invalid annotation: '' @ snd (validate_annotation annotation))), m)
         else (Inr annotation,
               m\<lparr>mgr_annotations := (mgr_annotations m)(ann_id annotation \<mapsto> annotation)\<rparr>))"

text \<open>\<open>get_annotation\<close>.\<close>

definition get_annotation :: "AnnotationManager \<Rightarrow> string \<Rightarrow> Annotation option" where
  "get_annotation m aid = mgr_annotations m aid"

text \<open>\<open>update_annotation\<close>. An \<open>Annotation\<close> instance is always truthy, so
  \<open>not annotation\<close> holds exactly when the id is not a key of the store. \<open>t1\<close> is the
  clock reading inside \<open>update_box\<close>, \<open>t2\<close> the one inside \<open>update_label\<close>.\<close>

definition update_annotation ::
  "AnnotationManager \<Rightarrow> string \<Rightarrow> BoundingBox option \<Rightarrow> int option \<Rightarrow> string option \<Rightarrow>
   datetime \<Rightarrow> datetime \<Rightarrow> bool \<times> AnnotationManager" where
  "update_annotation m aid box lid lname t1 t2 =
     (case mgr_annotations m aid of
        None \<Rightarrow> (False, m)
      | Some annotation \<Rightarrow>
          (let a1 = (case box of None \<Rightarrow> annotation | Some b \<Rightarrow> update_box annotation b t1);
               a2 = (case (lid, lname) of
                       (Some l, Some n) \<Rightarrow> update_label a1 l n t2
                     | _ \<Rightarrow> a1)
           in (True, m\<lparr>mgr_annotations := (mgr_annotations m)(aid \<mapsto> a2)\<rparr>)))"

text \<open>\<open>delete_annotation\<close>.\<close>

definition delete_annotation :: "AnnotationManager \<Rightarrow> string \<Rightarrow> bool \<times> AnnotationManager" where
  "delete_annotation m aid =
     (if aid \<in> dom (mgr_annotations m)
      then (True, m\<lparr>mgr_annotations := (mgr_annotations m)(aid := None)\<rparr>)
      else (False, m))"

section \<open>core/image\_manager.py\<close>

record ImageManager =
  images :: "string \<rightharpoonup> ImageMetadata"
  image_order :: "string list"
  current_index :: int
  base_path :: "string option"

text \<open>\<open>ImageManager.__init__\<close>: no image, cursor at the sentinel \<open>-1\<close>.\<close>

definition new_image_manager :: ImageManager where
  "new_image_manager =
     \<lparr>images = Map.empty, image_order = [], current_index = - 1, base_path = None\<rparr>"

text \<open>\<open>add_image\<close>.\<close>

definition add_image :: "ImageManager \<Rightarrow> string \<Rightarrow> ImageMetadata \<Rightarrow> string \<times> ImageManager" where
  "add_image m path metadata =
     (let metadata' = metadata\<lparr>file_path := path\<rparr>;
          order' = image_order m @ [img_id metadata'];
          m' = m\<lparr>images := (images m)(img_id metadata' \<mapsto> metadata'), image_order := order'\<rparr>
      in (img_id metadata',
          if length order' = 1 then m'\<lparr>current_index := 0\<rparr> else m'))"

text \<open>\<open>remove_image\<close>. \<open>list.remove\<close> deletes the first occurrence and raises
  \<open>ValueError\<close> when there is none; by then the entry of \<open>_images\<close> is already deleted.\<close>

definition remove_image :: "ImageManager \<Rightarrow> string \<Rightarrow> (py_error + bool) \<times> ImageManager" where
  "remove_image m iid =
     (if iid \<notin> dom (images m) then (Inr False, m)
      else
        let m1 = m\<lparr>images := (images m)(iid := None)\<rparr>
        in if iid \<notin> set (image_order m1)
           then (Inl (ValueError ''list.remove(x): x not in list''), m1)
           else
             let m2 = m1\<lparr>image_order := remove1 iid (image_order m1)\<rparr>;
                 m3 = (if current_index m2 \<ge> int (length (image_order m2))
                       then m2\<lparr>current_index := max 0 (int (length (image_order m2)) - 1)\<rparr>
                       else m2);
                 m4 = (if length (image_order m3) = 0 then m3\<lparr>current_index := - 1\<rparr> else m3)
             in (Inr True, m4))"

text \<open>\<open>list.index\<close>: the position of the first occurrence, if any.\<close>

fun list_index :: "'a list \<Rightarrow> 'a \<Rightarrow> nat option" where
  "list_index [] v = None"
| "list_index (u # us) v = (if u = v then Some 0 else map_option Suc (list_index us v))"

text \<open>\<open>goto_image\<close>; the \<open>ValueError\<close> of \<open>list.index\<close> is caught and gives \<open>False\<close>.\<close>

definition goto_image :: "ImageManager \<Rightarrow> string \<Rightarrow> bool \<times> ImageManager" where
  "goto_image m iid =
     (if iid \<notin> dom (images m) then (False, m)
      else (case list_index (image_order m) iid of
              Some i \<Rightarrow> (True, m\<lparr>current_index := int i\<rparr>)
            | None \<Rightarrow> (False, m)))"

text \<open>\<open>get_current_image\<close>, \<open>next_image\<close>, \<open>previous_image\<close>, \<open>get_image_count\<close>.\<close>

definition get_current_image :: "ImageManager \<Rightarrow> ImageMetadata option" where
  "get_current_image m =
     (if 0 \<le> current_index m \<and> current_index m < int (length (image_order m))
      then images m (image_order m ! nat (current_index m))
      else None)"

definition next_image :: "ImageManager \<Rightarrow> ImageMetadata option \<times> ImageManager" where
  "next_image m =
     (if length (image_order m) = 0 then (None, m)
      else let m' = (if current_index m < int (length (image_order m)) - 1
                     then m\<lparr>current_index := current_index m + 1\<rparr> else m)
           in (get_current_image m', m'))"

definition previous_image :: "ImageManager \<Rightarrow> ImageMetadata option \<times> ImageManager" where
  "previous_image m =
     (if length (image_order m) = 0 then (None, m)
      else let m' = (if current_index m > 0
                     then m\<lparr>current_index := current_index m - 1\<rparr> else m)
           in (get_current_image m', m'))"

definition get_image_count :: "ImageManager \<Rightarrow> int" where
  "get_image_count m = int (length (image_order m))"

text \<open>Every key of \<open>_images\<close> occurs in \<open>_image_order\<close>: it holds initially and each
  operation keeps it.\<close>

definition keys_ordered :: "ImageManager \<Rightarrow> bool" where
  "keys_ordered m \<longleftrightarrow> dom (images m) \<subseteq> set (image_order m)"

text \<open>A collection of three images, loaded in the order \<open>a\<close>, \<open>b\<close>, \<open>c\<close>.\<close>

definition blank_image :: "string \<Rightarrow> ImageMetadata" where
  "blank_image i = \<lparr>img_id = i, file_path = [], filename = [], img_width = 0, img_height = 0,
     img_format = [], annotations = []\<rparr>"

definition three_images :: "string \<Rightarrow> string \<Rightarrow> string \<Rightarrow> ImageManager" where
  "three_images a b c =
     snd (add_image (snd (add_image (snd (add_image new_image_manager ''/a'' (blank_image a)))
                                     ''/b'' (blank_image b)))
                     ''/c'' (blank_image c))"

section \<open>Python dictionaries in insertion order\<close>

text \<open>\<open>d[k] = v\<close>: an existing key keeps its position and takes the new value, a new key
  goes to the end.\<close>

fun dict_set :: "('k \<times> 'v) list \<Rightarrow> 'k \<Rightarrow> 'v \<Rightarrow> ('k \<times> 'v) list" where
  "dict_set [] k v = [(k, v)]"
| "dict_set (e # d) k v = (if fst e = k then (k, v) # d else e # dict_set d k v)"

text \<open>\<open>d.get(k)\<close>, \<open>k in d\<close>, \<open>del d[k]\<close>, and what makes an association list a \<open>dict\<close>.\<close>

definition dict_get :: "('k \<times> 'v) list \<Rightarrow> 'k \<Rightarrow> 'v option" where
  "dict_get d k = map_of d k"

definition dict_has :: "('k \<times> 'v) list \<Rightarrow> 'k \<Rightarrow> bool" where
  "dict_has d k \<longleftrightarrow> k \<in> set (map fst d)"

definition dict_del :: "('k \<times> 'v) list \<Rightarrow> 'k \<Rightarrow> ('k \<times> 'v) list" where
  "dict_del d k = filter (\<lambda>e. fst e \<noteq> k) d"

definition is_dict :: "('k \<times> 'v) list \<Rightarrow> bool" where
  "is_dict d \<longleftrightarrow> distinct (map fst d)"

section \<open>core/label\_manager.py\<close>

record LabelManager =
  labels :: "(int \<times> string) list"

definition new_label_manager :: LabelManager where
  "new_label_manager = \<lparr>labels = []\<rparr>"

text \<open>\<open>set_labels\<close> stores a copy of the dictionary; \<open>add_label\<close> is
  \<open>self._labels[label_id] = label_name\<close>.\<close>

definition set_labels :: "LabelManager \<Rightarrow> (int \<times> string) list \<Rightarrow> LabelManager" where
  "set_labels m d = m\<lparr>labels := d\<rparr>"

definition add_label :: "LabelManager \<Rightarrow> int \<Rightarrow> string \<Rightarrow> LabelManager" where
  "add_label m lid lname = m\<lparr>labels := dict_set (labels m) lid lname\<rparr>"

definition get_label_name :: "LabelManager \<Rightarrow> int \<Rightarrow> string option" where
  "get_label_name m lid = dict_get (labels m) lid"

text \<open>A call of the registry, and a run of calls.\<close>

datatype label_op = SetLabels "(int \<times> string) list" | AddLabel int string

fun apply_label_op :: "LabelManager \<Rightarrow> label_op \<Rightarrow> LabelManager" where
  "apply_label_op m (SetLabels d) = set_labels m d"
| "apply_label_op m (AddLabel lid lname) = add_label m lid lname"

definition run_label_ops :: "LabelManager \<Rightarrow> label_op list \<Rightarrow> LabelManager" where
  "run_label_ops m ops = foldl apply_label_op m ops"

text \<open>The argument of \<open>set_labels\<close> is a Python \<open>dict\<close>.\<close>

fun dict_argument :: "label_op \<Rightarrow> bool" where
  "dict_argument (SetLabels d) = is_dict d"
| "dict_argument (AddLabel lid lname) = True"

section \<open>ui/dialogs.py: LabelSetupDialog\<close>

text \<open>\<open>LabelSetupDialog._add_label\<close> on the dialog's \<open>labels\<close> dictionary, with the value
  of the id spin box and the text of the name field. Each rejected entry shows a warning
  and returns with the dictionary as it was.\<close>

definition dialog_add_label :: "(int \<times> string) list \<Rightarrow> int \<Rightarrow> string \<Rightarrow> (int \<times> string) list" where
  "dialog_add_label d lid entered =
     (let lname = py_strip entered
      in if lname = [] then d
         else if dict_has d lid then d
         else if lname \<in> set (map snd d) then d
         else dict_set d lid lname)"

section \<open>ui/image\_canvas.py: coordinate conversion\<close>

text \<open>\<open>int(f)\<close> on a float: truncation toward zero.\<close>

definition py_int :: "rat \<Rightarrow> int" where
  "py_int q = (if 0 \<le> q then \<lfloor>q\<rfloor> else \<lceil>q\<rceil>)"








section \<open>Files and documents\<close>

text \<open>A JSON number is an integer or a float; \<open>int(v)\<close> truncates a float.\<close>

datatype json_num = JInt int | JFloat rat

fun int_of_json :: "json_num \<Rightarrow> int" where
  "int_of_json (JInt n) = n"
| "int_of_json (JFloat q) = py_int q"

text \<open>The COCO document. The three sections that the import requires, and the two that
  the export adds, may each be missing from a document read from disk. An image entry
  always has \<open>id\<close> and \<open>file_name\<close>, an annotation entry always has \<open>image_id\<close>,
  \<open>category_id\<close> and \<open>bbox\<close>, a category always has \<open>id\<close> and \<open>name\<close>.\<close>

record coco_info =
  info_description :: string
  info_url :: string
  info_version :: string
  info_year :: int
  info_contributor :: string
  info_date_created :: string

record coco_image =
  ci_id :: int
  ci_file_name :: string
  ci_width :: "int option"
  ci_height :: "int option"
  ci_date_captured :: string
  ci_license :: int
  ci_coco_url :: string
  ci_flickr_url :: string

record coco_annotation =
  ca_id :: int
  ca_image_id :: int
  ca_category_id :: int
  ca_bbox :: "json_num list"
  ca_area :: json_num
  ca_segmentation :: "json_num list list"
  ca_iscrowd :: int

record coco_category =
  cat_id :: int
  cat_name :: string
  cat_supercategory :: string

record coco_data =
  cd_info :: "coco_info option"
  cd_licenses :: "string list option"
  cd_images :: "coco_image list option"
  cd_annotations :: "coco_annotation list option"
  cd_categories :: "coco_category list option"

text \<open>A row of the CSV file, under the header
  \<open>image_name,x,y,width,height,label_id,label_name\<close>.\<close>

record csv_row =
  row_image_name :: string
  row_x :: int
  row_y :: int
  row_width :: int
  row_height :: int
  row_label_id :: int
  row_label_name :: string

text \<open>What a regular file holds. \<open>json.dump\<close> followed by \<open>json.load\<close> gives back the
  document: its integers stay integers and its strings stay strings.\<close>

datatype file_content =
    JsonDoc coco_data
  | CsvDoc "string list" "csv_row list"
  | OtherFile

text \<open>The platform under the services: the regular files with their contents, the
  directories, which paths can be opened for writing, and the operations of \<open>pathlib\<close>
  (\<open>base / name\<close>, \<open>.name\<close>, \<open>.parent\<close>, \<open>.absolute()\<close>,
  \<open>.suffix.upper().lstrip('.')\<close> and \<open>.rglob\<close>), none of which is part of the sources.\<close>

record platform =
  files :: "string \<rightharpoonup> file_content"
  is_dir :: "string \<Rightarrow> bool"
  writable :: "string \<Rightarrow> bool"
  path_join :: "string \<Rightarrow> string \<Rightarrow> string"
  path_name :: "string \<Rightarrow> string"
  path_parent :: "string \<Rightarrow> string"
  path_absolute :: "string \<Rightarrow> string"
  path_format :: "string \<Rightarrow> string"
  rglob :: "string \<Rightarrow> string \<Rightarrow> string list"

definition is_file :: "platform \<Rightarrow> string \<Rightarrow> bool" where
  "is_file pf p \<longleftrightarrow> files pf p \<noteq> None"

definition path_exists :: "platform \<Rightarrow> string \<Rightarrow> bool" where
  "path_exists pf p \<longleftrightarrow> is_file pf p \<or> is_dir pf p"

text \<open>\<open>with open(path, 'w') as f: ...\<close> writing \<open>content\<close>.\<close>

definition write_file :: "platform \<Rightarrow> string \<Rightarrow> file_content \<Rightarrow> (py_error + unit) \<times> platform" where
  "write_file pf path content =
     (if writable pf path then (Inr (), pf\<lparr>files := (files pf)(path \<mapsto> content)\<rparr>)
      else (Inl (OSError path), pf))"

section \<open>core/export\_service.py\<close>

text \<open>The annotations of all images, in the order the loops meet them.\<close>

definition all_annotations :: "ImageMetadata list \<Rightarrow> Annotation list" where
  "all_annotations imgs = concat (map annotations imgs)"

text \<open>\<open>export_to_csv\<close>: the inner and the outer loop that collect \<open>rows\<close>. Reading
  \<open>annotation.bounding_box.x\<close> on \<open>None\<close> raises \<open>AttributeError\<close>.\<close>

fun csv_rows_of_annotations ::
  "string \<Rightarrow> Annotation list \<Rightarrow> csv_row list \<Rightarrow> py_error + csv_row list" where
  "csv_rows_of_annotations fname [] rows = Inr rows"
| "csv_rows_of_annotations fname (annotation # rest) rows =
     (case bounding_box annotation of
        None \<Rightarrow> Inl (AttributeError ''x'')
      | Some b \<Rightarrow>
          csv_rows_of_annotations fname rest
            (rows @ [\<lparr>row_image_name = fname, row_x = box_x b, row_y = box_y b,
                      row_width = box_width b, row_height = box_height b,
                      row_label_id = label_id annotation,
                      row_label_name = label_name annotation\<rparr>]))"

fun csv_rows_of_images :: "ImageMetadata list \<Rightarrow> csv_row list \<Rightarrow> py_error + csv_row list" where
  "csv_rows_of_images [] rows = Inr rows"
| "csv_rows_of_images (img # rest) rows =
     (case csv_rows_of_annotations (filename img) (annotations img) rows of
        Inl e \<Rightarrow> Inl e
      | Inr rows' \<Rightarrow> csv_rows_of_images rest rows')"

definition csv_fieldnames :: "string list" where
  "csv_fieldnames = [''image_name'', ''x'', ''y'', ''width'', ''height'', ''label_id'', ''label_name'']"

definition export_to_csv ::
  "platform \<Rightarrow> ImageMetadata list \<Rightarrow> string \<Rightarrow> (py_error + unit) \<times> platform" where
  "export_to_csv pf imgs output_path =
     (if imgs = [] then (Inl (ValueError ''No images to export''), pf)
      else (case csv_rows_of_images imgs [] of
              Inl e \<Rightarrow> (Inl e, pf)
            | Inr rows \<Rightarrow>
                if rows = [] then (Inl (ValueError ''No annotations to export''), pf)
                else write_file pf output_path (CsvDoc csv_fieldnames rows)))"

text \<open>\<open>export_to_coco\<close>: the mutable state of its loops.\<close>

record export_state =
  st_images :: "coco_image list"
  st_annotations :: "coco_annotation list"
  categories_map :: "(int \<times> string) list"
  annotation_id :: int

definition coco_image_entry :: "int \<Rightarrow> ImageMetadata \<Rightarrow> coco_image" where
  "coco_image_entry image_idx img =
     \<lparr>ci_id = image_idx, ci_file_name = filename img,
      ci_width = Some (img_width img), ci_height = Some (img_height img),
      ci_date_captured = [], ci_license = 0, ci_coco_url = [], ci_flickr_url = []\<rparr>"

definition coco_annotation_entry :: "int \<Rightarrow> int \<Rightarrow> Annotation \<Rightarrow> BoundingBox \<Rightarrow> coco_annotation" where
  "coco_annotation_entry aid image_idx annotation b =
     \<lparr>ca_id = aid, ca_image_id = image_idx, ca_category_id = label_id annotation,
      ca_bbox = [JInt (box_x b), JInt (box_y b), JInt (box_width b), JInt (box_height b)],
      ca_area = JInt (box_width b * box_height b),
      ca_segmentation = [], ca_iscrowd = 0\<rparr>"

text \<open>The category bookkeeping of one annotation: the first name seen for a label id
  stays.\<close>

definition track_category :: "(int \<times> string) list \<Rightarrow> Annotation \<Rightarrow> (int \<times> string) list" where
  "track_category cm annotation =
     (if \<not> dict_has cm (label_id annotation)
      then dict_set cm (label_id annotation) (label_name annotation) else cm)"

fun export_annotations :: "int \<Rightarrow> Annotation list \<Rightarrow> export_state \<Rightarrow> py_error + export_state" where
  "export_annotations image_idx [] st = Inr st"
| "export_annotations image_idx (annotation # rest) st =
     (let cm = track_category (categories_map st) annotation
      in case bounding_box annotation of
           None \<Rightarrow> Inl (AttributeError ''x'')
         | Some b \<Rightarrow>
             export_annotations image_idx rest
               (st\<lparr>st_annotations :=
                     st_annotations st @ [coco_annotation_entry (annotation_id st) image_idx annotation b],
                   categories_map := cm,
                   annotation_id := annotation_id st + 1\<rparr>))"

fun export_images :: "int \<Rightarrow> ImageMetadata list \<Rightarrow> export_state \<Rightarrow> py_error + export_state" where
  "export_images image_idx [] st = Inr st"
| "export_images image_idx (img # rest) st =
     (case export_annotations image_idx (annotations img)
             (st\<lparr>st_images := st_images st @ [coco_image_entry image_idx img]\<rparr>) of
        Inl e \<Rightarrow> Inl e
      | Inr st' \<Rightarrow> export_images (image_idx + 1) rest st')"

text \<open>The categories list: one entry per key of \<open>categories_map\<close>, keys sorted. Every
  sorted key is a key of the dictionary, so the lookup finds a name.\<close>

definition category_entries :: "(int \<times> string) list \<Rightarrow> coco_category list" where
  "category_entries cm =
     map (\<lambda>lid. \<lparr>cat_id = lid,
                  cat_name = (case dict_get cm lid of Some n \<Rightarrow> n | None \<Rightarrow> []),
                  cat_supercategory = []\<rparr>)
         (sort (map fst cm))"

text \<open>\<open>_create_info_section\<close>; \<open>yr\<close> and \<open>created\<close> come from the clock.\<close>

definition create_info_section :: "int \<Rightarrow> string \<Rightarrow> coco_info" where
  "create_info_section yr created =
     \<lparr>info_description = ''Image Annotation Tool - Annotated Dataset'', info_url = [],
      info_version = ''1.0'', info_year = yr, info_contributor = [],
      info_date_created = created\<rparr>"

definition export_to_coco ::
  "platform \<Rightarrow> int \<Rightarrow> string \<Rightarrow> ImageMetadata list \<Rightarrow> string \<Rightarrow> (py_error + unit) \<times> platform" where
  "export_to_coco pf yr created imgs output_path =
     (if imgs = [] then (Inl (ValueError ''No images to export''), pf)
      else (case export_images 1 imgs
                   \<lparr>st_images = [], st_annotations = [], categories_map = [], annotation_id = 1\<rparr> of
              Inl e \<Rightarrow> (Inl e, pf)
            | Inr st \<Rightarrow>
                let coco = \<lparr>cd_info = Some (create_info_section yr created),
                            cd_licenses = Some [],
                            cd_images = Some (st_images st),
                            cd_annotations = Some (st_annotations st),
                            cd_categories = Some (category_entries (categories_map st))\<rparr>
                in if st_annotations st = [] then (Inl (ValueError ''No annotations to export''), pf)
                   else write_file pf output_path (JsonDoc coco)))"

section \<open>core/import\_service.py\<close>

text \<open>\<open>str(n)\<close> for an integer, used in the label name \<open>unknown_<id>\<close>.\<close>

fun nat_digits :: "nat \<Rightarrow> string" where
  "nat_digits n =
     (if n < 10 then [char_of (48 + n)]
      else nat_digits (n div 10) @ [char_of (48 + n mod 10)])"

definition py_str :: "int \<Rightarrow> string" where
  "py_str i = (if i < 0 then CHR ''-'' # nat_digits (nat (- i)) else nat_digits (nat i))"

text \<open>The values drawn during an import: the \<open>uuid4\<close> and the two clock readings of
  the \<open>k\<close>-th annotation entry, and the \<open>uuid4\<close> of the \<open>k\<close>-th image entry.\<close>

record entropy =
  ann_uuid :: "nat \<Rightarrow> string"
  ann_created :: "nat \<Rightarrow> datetime"
  ann_modified :: "nat \<Rightarrow> datetime"
  img_uuid :: "nat \<Rightarrow> string"

text \<open>\<open>_validate_coco_format\<close> and \<open>_build_label_map\<close> (a later category with the same id
  overwrites the name).\<close>

definition validate_coco_format :: "coco_data \<Rightarrow> bool" where
  "validate_coco_format coco \<longleftrightarrow>
     cd_images coco \<noteq> None \<and> cd_annotations coco \<noteq> None \<and> cd_categories coco \<noteq> None"

definition build_label_map :: "coco_category list \<Rightarrow> (int \<times> string) list" where
  "build_label_map cats = foldl (\<lambda>d cat. dict_set d (cat_id cat) (cat_name cat)) [] cats"

text \<open>The body of the loop of \<open>_match_images_to_files\<close> for one \<open>file_name\<close>: the three
  strategies in order.\<close>

definition resolve_file :: "platform \<Rightarrow> string \<Rightarrow> string \<Rightarrow> string option" where
  "resolve_file pf base fname =
     (let candidate = path_join pf base fname
      in if path_exists pf candidate \<and> is_file pf candidate
         then Some (path_absolute pf candidate)
         else
           let basename = path_name pf fname;
               candidate2 = path_join pf base basename
           in if path_exists pf candidate2 \<and> is_file pf candidate2
              then Some (path_absolute pf candidate2)
              else (case find (is_file pf) (rglob pf base basename) of
                      Some m \<Rightarrow> Some (path_absolute pf m)
                    | None \<Rightarrow> None))"

text \<open>\<open>_match_images_to_files\<close>: the loop, with \<open>image_map\<close> as accumulator.\<close>

fun match_images_to_files ::
  "platform \<Rightarrow> string \<Rightarrow> coco_image list \<Rightarrow> (int \<times> string) list \<Rightarrow> (int \<times> string) list" where
  "match_images_to_files pf base [] image_map = image_map"
| "match_images_to_files pf base (img # rest) image_map =
     match_images_to_files pf base rest
       (case resolve_file pf base (ci_file_name img) of
          Some p \<Rightarrow> dict_set image_map (ci_id img) p
        | None \<Rightarrow> image_map)"

text \<open>\<open>annotations_by_image.get(image_id, [])\<close>.\<close>

definition get_list :: "('k \<times> 'v list) list \<Rightarrow> 'k \<Rightarrow> 'v list" where
  "get_list d k = (case dict_get d k of Some l \<Rightarrow> l | None \<Rightarrow> [])"

text \<open>\<open>_convert_annotations\<close>: the loop over the annotation entries, \<open>k\<close> counting them.
  \<open>bbox_coco[3]\<close> on a shorter list raises \<open>IndexError\<close>.\<close>

fun convert_annotations ::
  "entropy \<Rightarrow> (int \<times> string) list \<Rightarrow> nat \<Rightarrow> coco_annotation list \<Rightarrow>
   (int \<times> Annotation list) list \<Rightarrow> py_error + (int \<times> Annotation list) list" where
  "convert_annotations rnd label_map k [] by_image = Inr by_image"
| "convert_annotations rnd label_map k (coco_ann # rest) by_image =
     (case ca_bbox coco_ann of
        bx # by # bw # bh # _ \<Rightarrow>
          let box = \<lparr>box_x = int_of_json bx, box_y = int_of_json by,
                     box_width = int_of_json bw, box_height = int_of_json bh\<rparr>;
              category_id = ca_category_id coco_ann;
              annotation =
                \<lparr>ann_id = ann_uuid rnd k, bounding_box = Some box, label_id = category_id,
                 label_name = (case dict_get label_map category_id of
                                 Some n \<Rightarrow> n
                               | None \<Rightarrow> ''unknown_'' @ py_str category_id),
                 image_id = [], created_at = ann_created rnd k, modified_at = ann_modified rnd k\<rparr>;
              by_image1 = (if \<not> dict_has by_image (ca_image_id coco_ann)
                           then dict_set by_image (ca_image_id coco_ann) [] else by_image);
              by_image2 = dict_set by_image1 (ca_image_id coco_ann)
                            (get_list by_image1 (ca_image_id coco_ann) @ [annotation])
          in convert_annotations rnd label_map (Suc k) rest by_image2
      | _ \<Rightarrow> Inl IndexError)"

text \<open>The loop of \<open>import_from_coco\<close> that builds the \<open>ImageMetadata\<close> list; \<open>k\<close> counts
  the image entries. An entry whose id has no path in the map (or an empty one) is
  skipped.\<close>

fun build_image_metadata ::
  "platform \<Rightarrow> entropy \<Rightarrow> (int \<times> string) list \<Rightarrow> (int \<times> Annotation list) list \<Rightarrow>
   nat \<Rightarrow> coco_image list \<Rightarrow> ImageMetadata list" where
  "build_image_metadata pf rnd image_path_map by_image k [] = []"
| "build_image_metadata pf rnd image_path_map by_image k (coco_img # rest) =
     (case dict_get image_path_map (ci_id coco_img) of
        None \<Rightarrow> build_image_metadata pf rnd image_path_map by_image (Suc k) rest
      | Some fp \<Rightarrow>
          if fp = [] then build_image_metadata pf rnd image_path_map by_image (Suc k) rest
          else
            \<lparr>img_id = img_uuid rnd k, file_path = fp, filename = ci_file_name coco_img,
             img_width = (case ci_width coco_img of Some w \<Rightarrow> w | None \<Rightarrow> 0),
             img_height = (case ci_height coco_img of Some h \<Rightarrow> h | None \<Rightarrow> 0),
             img_format = path_format pf (ci_file_name coco_img),
             annotations = get_list by_image (ci_id coco_img)\<rparr>
            # build_image_metadata pf rnd image_path_map by_image (Suc k) rest)"

text \<open>\<open>import_from_coco\<close>. Opening a directory raises \<open>IsADirectoryError\<close>; a file that
  is not JSON makes \<open>json.load\<close> raise.\<close>

definition import_from_coco ::
  "platform \<Rightarrow> entropy \<Rightarrow> string \<Rightarrow> string option \<Rightarrow>
   py_error + (ImageMetadata list \<times> (int \<times> string) list)" where
  "import_from_coco pf rnd coco_path base_image_path =
     (if \<not> path_exists pf coco_path then Inl (FileNotFoundError coco_path)
      else (case files pf coco_path of
              None \<Rightarrow> Inl (IsADirectoryError coco_path)
            | Some (CsvDoc h r) \<Rightarrow> Inl JSONDecodeError
            | Some OtherFile \<Rightarrow> Inl JSONDecodeError
            | Some (JsonDoc coco) \<Rightarrow>
                if \<not> validate_coco_format coco
                then Inl (ValueError
                       ''Invalid COCO JSON format. Required keys: images, annotations, categories'')
                else
                  (case (cd_images coco, cd_annotations coco, cd_categories coco) of
                     (Some imgs, Some anns, Some cats) \<Rightarrow>
                       let label_map = build_label_map cats;
                           base = (case base_image_path of
                                     None \<Rightarrow> path_parent pf coco_path
                                   | Some b \<Rightarrow> b);
                           image_path_map = match_images_to_files pf base imgs []
                       in (case convert_annotations rnd label_map 0 anns [] of
                             Inl e \<Rightarrow> Inl e
                           | Inr by_image \<Rightarrow>
                               Inr (build_image_metadata pf rnd image_path_map by_image 0 imgs,
                                    label_map))
                   | _ \<Rightarrow> Inl (ValueError
                       ''Invalid COCO JSON format. Required keys: images, annotations, categories''))))"

section \<open>Sample data\<close>

text \<open>A store holding one annotation, used to run the operations.\<close>

definition sample_box :: BoundingBox where
  "sample_box = \<lparr>box_x = 10, box_y = 20, box_width = 30, box_height = 40\<rparr>"

definition sample_annotation :: Annotation where
  "sample_annotation = \<lparr>ann_id = ''a1'', bounding_box = Some sample_box, label_id = 1,
     label_name = ''cat'', image_id = ''img'', created_at = 5, modified_at = 5\<rparr>"

definition sample_manager :: AnnotationManager where
  "sample_manager = \<lparr>mgr_annotations = [''a1'' \<mapsto> sample_annotation], validation_enabled = True\<rparr>"

section \<open>Closed forms of the export loops\<close>

text \<open>Every annotation of the list carries a bounding box.\<close>

definition boxes_present :: "Annotation list \<Rightarrow> bool" where
  "boxes_present anns \<longleftrightarrow> (\<forall>a \<in> set anns. bounding_box a \<noteq> None)"

text \<open>The CSV row that the inner loop of \<open>export_to_csv\<close> appends for an annotation with a box.\<close>

definition csv_row_of :: "string \<Rightarrow> Annotation \<Rightarrow> csv_row" where
  "csv_row_of fname a =
     (let b = the (bounding_box a)
      in \<lparr>row_image_name = fname, row_x = box_x b, row_y = box_y b,
          row_width = box_width b, row_height = box_height b,
          row_label_id = label_id a, row_label_name = label_name a\<rparr>)"

text \<open>The entries that the inner loop of \<open>export_to_coco\<close> appends for the annotations of one image, the first one numbered \<open>aid\<close>.\<close>

fun annotation_entries :: "int \<Rightarrow> int \<Rightarrow> Annotation list \<Rightarrow> coco_annotation list" where
  "annotation_entries aid idx [] = []"
| "annotation_entries aid idx (a # rest) =
     coco_annotation_entry aid idx a (the (bounding_box a)) # annotation_entries (aid + 1) idx rest"

text \<open>The image entries of the outer loop, the first one numbered \<open>idx\<close>.\<close>

fun image_entries :: "int \<Rightarrow> ImageMetadata list \<Rightarrow> coco_image list" where
  "image_entries idx [] = []"
| "image_entries idx (img # rest) = coco_image_entry idx img # image_entries (idx + 1) rest"

text \<open>The annotation entries of the whole run of the outer loop.\<close>

fun all_entries :: "int \<Rightarrow> int \<Rightarrow> ImageMetadata list \<Rightarrow> coco_annotation list" where
  "all_entries aid idx [] = []"
| "all_entries aid idx (img # rest) =
     annotation_entries aid idx (annotations img)
     @ all_entries (aid + int (length (annotations img))) (idx + 1) rest"

text \<open>The document that \<open>export_to_coco\<close> writes when it succeeds.\<close>

definition export_document :: "int \<Rightarrow> string \<Rightarrow> ImageMetadata list \<Rightarrow> coco_data" where
  "export_document yr created imgs =
     \<lparr>cd_info = Some (create_info_section yr created),
      cd_licenses = Some [],
      cd_images = Some (image_entries 1 imgs),
      cd_annotations = Some (all_entries 1 1 imgs),
      cd_categories = Some (category_entries (foldl track_category [] (all_annotations imgs)))\<rparr>"

text \<open>An annotation entry carries the label id, box, area and fixed fields of an annotation.\<close>

definition entry_of :: "coco_annotation \<Rightarrow> Annotation \<Rightarrow> bool" where
  "entry_of c a \<longleftrightarrow>
     (\<exists>b. bounding_box a = Some b \<and>
          ca_category_id c = label_id a \<and>
          ca_bbox c = [JInt (box_x b), JInt (box_y b), JInt (box_width b), JInt (box_height b)] \<and>
          ca_area c = JInt (box_width b * box_height b) \<and>
          ca_segmentation c = [] \<and> ca_iscrowd c = 0)"

section \<open>A small platform\<close>

text \<open>Two image files under \<open>/data\<close>, one of them in a subdirectory that only the
  recursive search reaches; paths are joined with a slash, and every path used is
  already absolute (the empty path stands for the working directory \<open>/data\<close>).\<close>

definition sample_platform :: platform where
  "sample_platform =
     \<lparr>files = map_of [(''/data/a.jpg'', OtherFile), (''/data/sub/c.jpg'', OtherFile)],
      is_dir = (\<lambda>p. p = ''/data'' \<or> p = ''/data/sub''),
      writable = (\<lambda>p. True),
      path_join = (\<lambda>b n. b @ ''/'' @ n),
      path_name = (\<lambda>p. rev (takeWhile (\<lambda>c. c \<noteq> CHR ''/'') (rev p))),
      path_parent = (\<lambda>p. rev (drop 1 (dropWhile (\<lambda>c. c \<noteq> CHR ''/'') (rev p)))),
      path_absolute = (\<lambda>p. if p = [] then ''/data'' else p),
      path_format = (\<lambda>p. []),
      rglob = (\<lambda>b n. if b = ''/data'' \<and> n = ''c.jpg'' then [''/data/sub/c.jpg''] else [])\<rparr>"

text \<open>An image without annotations.\<close>

definition unlabelled_image :: ImageMetadata where
  "unlabelled_image = (blank_image ''i1'')\<lparr>filename := ''a.jpg''\<rparr>"

text \<open>The \<open>(label_id, label_name)\<close> pairs of the annotations, in the order met.\<close>

definition used_labels :: "ImageMetadata list \<Rightarrow> (int \<times> string) list" where
  "used_labels imgs = map (\<lambda>a. (label_id a, label_name a)) (all_annotations imgs)"

text \<open>The \<open>(id, name)\<close> pairs of a category list.\<close>

definition category_pairs :: "coco_category list \<Rightarrow> (int \<times> string) list" where
  "category_pairs cats = map (\<lambda>c. (cat_id c, cat_name c)) cats"

text \<open>The category pairs of the document stored in a file.\<close>

definition exported_categories :: "platform \<Rightarrow> string \<Rightarrow> (int \<times> string) list" where
  "exported_categories pf out =
     (case files pf out of
        Some (JsonDoc d) \<Rightarrow> (case cd_categories d of Some cats \<Rightarrow> category_pairs cats | None \<Rightarrow> [])
      | _ \<Rightarrow> [])"

text \<open>No label id is used with two different names.\<close>

definition consistent_names :: "Annotation list \<Rightarrow> bool" where
  "consistent_names anns \<longleftrightarrow>
     (\<forall>a \<in> set anns. \<forall>b \<in> set anns. label_id a = label_id b \<longrightarrow> label_name a = label_name b)"

text \<open>The label name of the first annotation that carries a label id.\<close>

definition first_name :: "Annotation list \<Rightarrow> int \<Rightarrow> string option" where
  "first_name anns lid = map_option label_name (find (\<lambda>a. label_id a = lid) anns)"

text \<open>An image with two annotations that share label id 1 under the names \<open>cat\<close> and \<open>dog\<close>.\<close>

definition two_names_image :: ImageMetadata where
  "two_names_image = (blank_image ''i1'')\<lparr>filename := ''a.jpg'', annotations :=
     [sample_annotation, sample_annotation\<lparr>ann_id := ''a2'', label_name := ''dog''\<rparr>]\<rparr>"

text \<open>\<open>Path.absolute()\<close> never gives the empty string.\<close>

definition proper_paths :: "platform \<Rightarrow> bool" where
  "proper_paths pf \<longleftrightarrow> (\<forall>p. path_absolute pf p \<noteq> [])"

text \<open>The base directory of an import: the override, or the directory of the JSON file.\<close>

definition import_base :: "platform \<Rightarrow> string \<Rightarrow> string option \<Rightarrow> string" where
  "import_base pf coco_path base_image_path =
     (case base_image_path of None \<Rightarrow> path_parent pf coco_path | Some b \<Rightarrow> b)"

text \<open>The images an import returns: every image entry whose file name the three strategies resolve, in the order of the document, with the resolved path.\<close>

fun resolved_images ::
  "platform \<Rightarrow> entropy \<Rightarrow> string \<Rightarrow> (int \<times> Annotation list) list \<Rightarrow>
   nat \<Rightarrow> coco_image list \<Rightarrow> ImageMetadata list" where
  "resolved_images pf rnd base by_image k [] = []"
| "resolved_images pf rnd base by_image k (coco_img # rest) =
     (case resolve_file pf base (ci_file_name coco_img) of
        None \<Rightarrow> resolved_images pf rnd base by_image (Suc k) rest
      | Some fp \<Rightarrow>
          \<lparr>img_id = img_uuid rnd k, file_path = fp, filename = ci_file_name coco_img,
           img_width = (case ci_width coco_img of Some w \<Rightarrow> w | None \<Rightarrow> 0),
           img_height = (case ci_height coco_img of Some h \<Rightarrow> h | None \<Rightarrow> 0),
           img_format = path_format pf (ci_file_name coco_img),
           annotations = get_list by_image (ci_id coco_img)\<rparr>
          # resolved_images pf rnd base by_image (Suc k) rest)"

text \<open>Every annotation entry has at least four numbers in \<open>bbox\<close>.\<close>

definition bboxes_complete :: "coco_annotation list \<Rightarrow> bool" where
  "bboxes_complete anns \<longleftrightarrow> (\<forall>c \<in> set anns. 4 \<le> length (ca_bbox c))"


text \<open>Sample identifiers and clock readings for an import.\<close>

definition sample_entropy :: entropy where
  "sample_entropy =
     \<lparr>ann_uuid = (\<lambda>k. ''ann-'' @ nat_digits k), ann_created = (\<lambda>k. 100),
      ann_modified = (\<lambda>k. 100), img_uuid = (\<lambda>k. ''img-'' @ nat_digits k)\<rparr>"





text \<open>The platform with one more file.\<close>

definition with_file :: "platform \<Rightarrow> string \<Rightarrow> file_content \<Rightarrow> platform" where
  "with_file pf path content = pf\<lparr>files := (files pf)(path \<mapsto> content)\<rparr>"


text \<open>The box that \<open>_convert_annotations\<close> builds from a \<open>bbox\<close> list of at least four numbers.\<close>

definition bbox_box :: "json_num list \<Rightarrow> BoundingBox option" where
  "bbox_box bbox =
     (case bbox of
        bx # by # bw # bh # _ \<Rightarrow>
          Some \<lparr>box_x = int_of_json bx, box_y = int_of_json by,
                box_width = int_of_json bw, box_height = int_of_json bh\<rparr>
      | _ \<Rightarrow> None)"

text \<open>The \<open>(label_id, bbox)\<close> pair of an annotation.\<close>

definition label_and_box :: "Annotation \<Rightarrow> int \<times> BoundingBox option" where
  "label_and_box a = (label_id a, bounding_box a)"

text \<open>The \<open>(category_id, bbox)\<close> pair of an annotation entry, as the import reads it.\<close>

definition entry_label_and_box :: "coco_annotation \<Rightarrow> int \<times> BoundingBox option" where
  "entry_label_and_box c = (ca_category_id c, bbox_box (ca_bbox c))"

section \<open>Validation and creation\<close>

lemma py_strip_empty_iff: "py_strip s = [] \<longleftrightarrow> blank s"
proof -
  have "py_strip s = [] \<longleftrightarrow> dropWhile py_isspace (rev (dropWhile py_isspace s)) = []"
    by (simp add: py_strip_def)
  also have "\<dots> \<longleftrightarrow> (\<forall>c \<in> set (dropWhile py_isspace s). py_isspace c)"
    by (simp add: dropWhile_eq_Nil_conv)
  also have "\<dots> \<longleftrightarrow> dropWhile py_isspace s = []"
  proof
    assume h: "\<forall>c \<in> set (dropWhile py_isspace s). py_isspace c"
    show "dropWhile py_isspace s = []"
    proof (cases "dropWhile py_isspace s")
      case Nil
      then show ?thesis .
    next
      case (Cons c cs)
      then have "\<not> py_isspace c"
        using hd_dropWhile [of py_isspace s] by simp
      moreover have "py_isspace c" using h Cons by simp
      ultimately show ?thesis by simp
    qed
  next
    assume e: "dropWhile py_isspace s = []"
    show "\<forall>c \<in> set (dropWhile py_isspace s). py_isspace c"
      unfolding e by simp
  qed
  also have "\<dots> \<longleftrightarrow> blank s"
    by (simp add: dropWhile_eq_Nil_conv blank_def)
  finally show ?thesis .
qed

lemma blank_Nil: "blank []"
  by (simp add: blank_def)

lemma validate_annotation_ok_iff:
  "fst (validate_annotation a) \<longleftrightarrow>
     0 < label_id a \<and> \<not> blank (label_name a) \<and>
     (\<exists>b. bounding_box a = Some b \<and> 0 < box_width b \<and> 0 < box_height b)"
proof -
  have e: "label_name a = [] \<Longrightarrow> blank (label_name a)"
    by (simp add: blank_Nil)
  show ?thesis
    unfolding validate_annotation_def py_strip_empty_iff
    using e by (auto split: option.splits)
qed

text \<open>
  C2. With validation enabled, \<open>create_annotation\<close> raises the validation error
  (\<open>ValueError\<close> in the source) exactly when \<open>label_id \<le> 0\<close>, or the label name is empty
  or whitespace-only, or the box is absent, or the box has \<open>width \<le> 0\<close> or
  \<open>height \<le> 0\<close>. Whenever it raises, the manager (and so its store) is the one before the
  call. With validation disabled it never raises and stores the annotation.
\<close>

theorem create_annotation_validation:
  "(validation_enabled m \<longrightarrow>
      ((\<exists>msg. fst (create_annotation m new_id t1 t2 iid box lid lname) = Inl (ValueError msg))
        \<longleftrightarrow> (lid \<le> 0 \<or> blank lname \<or> box = None \<or>
             (\<exists>b. box = Some b \<and> (box_width b \<le> 0 \<or> box_height b \<le> 0)))))
   \<and> (isl (fst (create_annotation m new_id t1 t2 iid box lid lname)) \<longrightarrow>
        (\<exists>msg. fst (create_annotation m new_id t1 t2 iid box lid lname) = Inl (ValueError msg)) \<and>
        snd (create_annotation m new_id t1 t2 iid box lid lname) = m)
   \<and> (\<not> validation_enabled m \<longrightarrow>
        (\<exists>a. fst (create_annotation m new_id t1 t2 iid box lid lname) = Inr a \<and>
             bounding_box a = box \<and> label_id a = lid \<and> label_name a = lname \<and>
             mgr_annotations (snd (create_annotation m new_id t1 t2 iid box lid lname)) new_id
               = Some a))"
proof -
  let ?a = "\<lparr>ann_id = new_id, bounding_box = box, label_id = lid,
              label_name = lname, image_id = iid, created_at = t1, modified_at = t2\<rparr>"
  have v: "fst (validate_annotation ?a) \<longleftrightarrow>
      \<not> (lid \<le> 0 \<or> blank lname \<or> box = None \<or>
         (\<exists>b. box = Some b \<and> (box_width b \<le> 0 \<or> box_height b \<le> 0)))"
    unfolding validate_annotation_ok_iff by (cases box) auto
  show ?thesis
    unfolding create_annotation_def Let_def using v by auto
qed

theorem create_annotation_validation_witness:
  "validation_enabled (new_manager True) \<and>
   (\<exists>msg. fst (create_annotation (new_manager True) ''u1'' 1 2 ''img'' None 3 ''cat'')
            = Inl (ValueError msg)) \<and>
   snd (create_annotation (new_manager True) ''u1'' 1 2 ''img'' None 3 ''cat'') = new_manager True \<and>
   \<not> validation_enabled (new_manager False) \<and>
   (\<exists>a. fst (create_annotation (new_manager False) ''u1'' 1 2 ''img'' None 3 ''cat'') = Inr a \<and>
        bounding_box a = None)"
proof -
  have t: "validation_enabled (new_manager True)" and f: "\<not> validation_enabled (new_manager False)"
    by (simp_all add: new_manager_def)
  from t create_annotation_validation [of "new_manager True" "''u1''" 1 2 "''img''" None 3 "''cat''"]
  have r: "\<exists>msg. fst (create_annotation (new_manager True) ''u1'' 1 2 ''img'' None 3 ''cat'')
            = Inl (ValueError msg)"
    by simp
  then have "isl (fst (create_annotation (new_manager True) ''u1'' 1 2 ''img'' None 3 ''cat''))"
    by auto
  with create_annotation_validation [of "new_manager True" "''u1''" 1 2 "''img''" None 3 "''cat''"]
  have u: "snd (create_annotation (new_manager True) ''u1'' 1 2 ''img'' None 3 ''cat'')
             = new_manager True"
    by blast
  from f create_annotation_validation [of "new_manager False" "''u1''" 1 2 "''img''" None 3 "''cat''"]
  have d: "\<exists>a. fst (create_annotation (new_manager False) ''u1'' 1 2 ''img'' None 3 ''cat'') = Inr a \<and>
        bounding_box a = None"
    by blast
  from t r u f d show ?thesis by blast
qed

section \<open>Updating an annotation\<close>

text \<open>
  C8. \<open>update_annotation\<close> returns false exactly when the id is not in the store, and
  then the manager is unchanged. For a known id it returns true; the label id and name are
  replaced only when both are supplied (one alone leaves both as they were); the box is
  replaced whenever one is supplied, whatever the labels; \<open>modified_at\<close> becomes the
  clock reading of the last mutation applied (the label update's when a label pair is
  applied, else the box update's when a box is applied) and is untouched when nothing is
  applied. The other fields and the other entries of the store are unchanged.
\<close>

theorem update_annotation_contract:
  "(\<not> fst (update_annotation m aid box lid lname t1 t2) \<longleftrightarrow> mgr_annotations m aid = None)
   \<and> (mgr_annotations m aid = None \<longrightarrow> snd (update_annotation m aid box lid lname t1 t2) = m)
   \<and> (\<forall>a. mgr_annotations m aid = Some a \<longrightarrow>
        fst (update_annotation m aid box lid lname t1 t2) \<and>
        (\<exists>a'. mgr_annotations (snd (update_annotation m aid box lid lname t1 t2))
                = (mgr_annotations m)(aid \<mapsto> a') \<and>
          validation_enabled (snd (update_annotation m aid box lid lname t1 t2))
                = validation_enabled m \<and>
          (label_id a', label_name a') =
             (case (lid, lname) of (Some l, Some n) \<Rightarrow> (l, n) | _ \<Rightarrow> (label_id a, label_name a)) \<and>
          bounding_box a' = (case box of None \<Rightarrow> bounding_box a | Some b \<Rightarrow> Some b) \<and>
          modified_at a' =
             (case (lid, lname) of
                (Some l, Some n) \<Rightarrow> t2
              | _ \<Rightarrow> (case box of None \<Rightarrow> modified_at a | Some b \<Rightarrow> t1)) \<and>
          ann_id a' = ann_id a \<and> image_id a' = image_id a \<and> created_at a' = created_at a))"
proof (cases "mgr_annotations m aid")
  case None
  then show ?thesis by (simp add: update_annotation_def)
next
  case (Some a)
  let ?a1 = "case box of None \<Rightarrow> a | Some b \<Rightarrow> update_box a b t1"
  let ?a2 = "case (lid, lname) of (Some l, Some n) \<Rightarrow> update_label ?a1 l n t2 | _ \<Rightarrow> ?a1"
  have r: "update_annotation m aid box lid lname t1 t2
             = (True, m\<lparr>mgr_annotations := (mgr_annotations m)(aid \<mapsto> ?a2)\<rparr>)"
    using Some by (simp add: update_annotation_def Let_def)
  have props:
    "(label_id ?a2, label_name ?a2) =
        (case (lid, lname) of (Some l, Some n) \<Rightarrow> (l, n) | _ \<Rightarrow> (label_id a, label_name a)) \<and>
     bounding_box ?a2 = (case box of None \<Rightarrow> bounding_box a | Some b \<Rightarrow> Some b) \<and>
     modified_at ?a2 =
        (case (lid, lname) of
           (Some l, Some n) \<Rightarrow> t2
         | _ \<Rightarrow> (case box of None \<Rightarrow> modified_at a | Some b \<Rightarrow> t1)) \<and>
     ann_id ?a2 = ann_id a \<and> image_id ?a2 = image_id a \<and> created_at ?a2 = created_at a"
    by (cases box; cases lid; cases lname) (simp_all add: update_box_def update_label_def)
  have "\<exists>a'. mgr_annotations (snd (update_annotation m aid box lid lname t1 t2))
                = (mgr_annotations m)(aid \<mapsto> a') \<and>
          validation_enabled (snd (update_annotation m aid box lid lname t1 t2))
                = validation_enabled m \<and>
          (label_id a', label_name a') =
             (case (lid, lname) of (Some l, Some n) \<Rightarrow> (l, n) | _ \<Rightarrow> (label_id a, label_name a)) \<and>
          bounding_box a' = (case box of None \<Rightarrow> bounding_box a | Some b \<Rightarrow> Some b) \<and>
          modified_at a' =
             (case (lid, lname) of
                (Some l, Some n) \<Rightarrow> t2
              | _ \<Rightarrow> (case box of None \<Rightarrow> modified_at a | Some b \<Rightarrow> t1)) \<and>
          ann_id a' = ann_id a \<and> image_id a' = image_id a \<and> created_at a' = created_at a"
    unfolding r using props by (intro exI [of _ ?a2]) simp
  moreover have "fst (update_annotation m aid box lid lname t1 t2)"
    unfolding r by simp
  ultimately show ?thesis using Some by simp
qed

theorem update_annotation_contract_witness:
  "mgr_annotations sample_manager ''zz'' = None \<and>
   snd (update_annotation sample_manager ''zz'' None (Some 2) (Some ''dog'') 8 9) = sample_manager \<and>
   mgr_annotations sample_manager ''a1'' = Some sample_annotation \<and>
   fst (update_annotation sample_manager ''a1'' None (Some 2) None 8 9) \<and>
   (\<exists>a'. mgr_annotations (snd (update_annotation sample_manager ''a1'' None (Some 2) None 8 9)) ''a1''
            = Some a' \<and> label_id a' = 1 \<and> label_name a' = ''cat'' \<and> modified_at a' = 5)"
proof -
  have n: "mgr_annotations sample_manager ''zz'' = None"
    and k: "mgr_annotations sample_manager ''a1'' = Some sample_annotation"
    by (simp_all add: sample_manager_def)
  from n update_annotation_contract [of sample_manager "''zz''" None "Some 2" "Some ''dog''" 8 9]
  have u: "snd (update_annotation sample_manager ''zz'' None (Some 2) (Some ''dog'') 8 9)
             = sample_manager"
    by blast
  from k update_annotation_contract [of sample_manager "''a1''" None "Some 2" None 8 9]
  obtain a' where f: "fst (update_annotation sample_manager ''a1'' None (Some 2) None 8 9)"
    and s: "mgr_annotations (snd (update_annotation sample_manager ''a1'' None (Some 2) None 8 9))
              = (mgr_annotations sample_manager)(''a1'' \<mapsto> a')"
    and l: "(label_id a', label_name a') = (label_id sample_annotation, label_name sample_annotation)"
    and t: "modified_at a' = modified_at sample_annotation"
    by auto
  from s have "mgr_annotations (snd (update_annotation sample_manager ''a1'' None (Some 2) None 8 9)) ''a1''
              = Some a'"
    by simp
  moreover from l t have "label_id a' = 1 \<and> label_name a' = ''cat'' \<and> modified_at a' = 5"
    by (simp add: sample_annotation_def)
  ultimately have "fst (update_annotation sample_manager ''a1'' None (Some 2) None 8 9) \<and>
        (\<exists>a'. mgr_annotations (snd (update_annotation sample_manager ''a1'' None (Some 2) None 8 9)) ''a1''
                = Some a' \<and> label_id a' = 1 \<and> label_name a' = ''cat'' \<and> modified_at a' = 5)"
    using f by blast
  with n u k show ?thesis by blast
qed

section \<open>Removing an image\<close>

lemma keys_ordered_new: "keys_ordered new_image_manager"
  by (simp add: keys_ordered_def new_image_manager_def)

lemma keys_ordered_add: "keys_ordered m \<Longrightarrow> keys_ordered (snd (add_image m p md))"
  by (auto simp: keys_ordered_def add_image_def Let_def)


lemma keys_ordered_goto: "keys_ordered m \<Longrightarrow> keys_ordered (snd (goto_image m i))"
  by (auto simp: keys_ordered_def goto_image_def split: option.splits)

lemma keys_ordered_next: "keys_ordered m \<Longrightarrow> keys_ordered (snd (next_image m))"
  by (auto simp: keys_ordered_def next_image_def Let_def)

lemma keys_ordered_previous: "keys_ordered m \<Longrightarrow> keys_ordered (snd (previous_image m))"
  by (auto simp: keys_ordered_def previous_image_def Let_def)

lemma remove_image_absent: "images m iid = None \<Longrightarrow> remove_image m iid = (Inr False, m)"
  by (simp add: remove_image_def domIff)

lemma remove_image_present:
  assumes "images m iid \<noteq> None" and "iid \<in> set (image_order m)"
  shows "remove_image m iid =
           (Inr True,
            m\<lparr>images := (images m)(iid := None),
              image_order := remove1 iid (image_order m),
              current_index :=
                (if length (remove1 iid (image_order m)) = 0 then - 1
                 else min (current_index m) (int (length (remove1 iid (image_order m))) - 1))\<rparr>)"
  using assms by (auto simp: remove_image_def Let_def domIff min_def max_def)

lemma keys_ordered_remove:
  assumes "keys_ordered m"
  shows "keys_ordered (snd (remove_image m i))"
proof (cases "images m i = None")
  case True
  then show ?thesis using assms by (simp add: remove_image_absent)
next
  case False
  with assms have i: "i \<in> set (image_order m)"
    by (auto simp: keys_ordered_def)
  have "dom ((images m)(i := None)) \<subseteq> set (remove1 i (image_order m))"
  proof
    fix k assume "k \<in> dom ((images m)(i := None))"
    then have "k \<noteq> i" and "k \<in> dom (images m)"
      by (auto split: if_splits)
    with assms have "k \<in> set (image_order m)"
      by (auto simp: keys_ordered_def)
    with \<open>k \<noteq> i\<close> show "k \<in> set (remove1 i (image_order m))"
      by simp
  qed
  then show ?thesis
    unfolding remove_image_present [OF False i] by (simp add: keys_ordered_def)
qed

lemma three_images_eq:
  "three_images a b c =
     \<lparr>images = [a \<mapsto> (blank_image a)\<lparr>file_path := ''/a''\<rparr>,
                b \<mapsto> (blank_image b)\<lparr>file_path := ''/b''\<rparr>,
                c \<mapsto> (blank_image c)\<lparr>file_path := ''/c''\<rparr>],
      image_order = [a, b, c], current_index = 0, base_path = None\<rparr>"
  by (simp add: three_images_def add_image_def new_image_manager_def Let_def blank_image_def)

lemma three_images_goto_remove:
  assumes "a \<noteq> b" "a \<noteq> c" "b \<noteq> c"
  shows "goto_image (three_images a b c) c = (True, (three_images a b c)\<lparr>current_index := 2\<rparr>)"
    and "fst (remove_image (snd (goto_image (three_images a b c) c)) c) = Inr True"
    and "current_index (snd (remove_image (snd (goto_image (three_images a b c) c)) c)) = 1"
    and "image_order (snd (remove_image (snd (goto_image (three_images a b c) c)) c)) = [a, b]"
proof -
  show g: "goto_image (three_images a b c) c = (True, (three_images a b c)\<lparr>current_index := 2\<rparr>)"
    using assms by (simp add: three_images_eq goto_image_def)
  have p: "images ((three_images a b c)\<lparr>current_index := 2\<rparr>) c \<noteq> None"
          "c \<in> set (image_order ((three_images a b c)\<lparr>current_index := 2\<rparr>))"
    by (simp_all add: three_images_eq)
  have r: "remove1 c [a, b, c] = [a, b]" using assms by simp
  show "fst (remove_image (snd (goto_image (three_images a b c) c)) c) = Inr True"
    unfolding g using remove_image_present [OF p] by simp
  show "current_index (snd (remove_image (snd (goto_image (three_images a b c) c)) c)) = 1"
    unfolding g using remove_image_present [OF p] r by (simp add: three_images_eq)
  show "image_order (snd (remove_image (snd (goto_image (three_images a b c) c)) c)) = [a, b]"
    unfolding g using remove_image_present [OF p] r by (simp add: three_images_eq)
qed

lemma remove_sole_image:
  "remove_image (snd (add_image new_image_manager p md)) (img_id md) =
     (Inr True, new_image_manager)"
proof -
  let ?m = "snd (add_image new_image_manager p md)"
  have "images ?m (img_id md) \<noteq> None" "img_id md \<in> set (image_order ?m)"
    by (simp_all add: add_image_def new_image_manager_def Let_def)
  from remove_image_present [OF this] show ?thesis
    by (simp add: add_image_def new_image_manager_def Let_def)
qed

text \<open>
  C7. \<open>remove_image\<close> on an id that is absent returns false and leaves the manager as it
  was. On a present id (a key of \<open>_images\<close>, listed in \<open>_image_order\<close> as every key is in
  a manager built by the operations) it returns true, deletes the image from the mapping
  and its first occurrence from the order, and leaves the cursor at \<open>-1\<close> ("no
  selection") when the collection is now empty and at \<open>min cursor (count - 1)\<close>
  otherwise, \<open>count\<close> being the number of images after the removal. In a collection of
  three distinct images \<open>a, b, c\<close>, going to \<open>c\<close> and removing it leaves the cursor at
  index 1 with \<open>[a, b]\<close> remaining, and removing the only image of a collection leaves
  the cursor at \<open>-1\<close>.
\<close>

theorem remove_image_cursor:
  "(images m iid = None \<longrightarrow> remove_image m iid = (Inr False, m))
   \<and> (keys_ordered m \<and> images m iid \<noteq> None \<longrightarrow>
        fst (remove_image m iid) = Inr True \<and>
        images (snd (remove_image m iid)) = (images m)(iid := None) \<and>
        image_order (snd (remove_image m iid)) = remove1 iid (image_order m) \<and>
        get_image_count (snd (remove_image m iid)) = get_image_count m - 1 \<and>
        current_index (snd (remove_image m iid)) =
          (if get_image_count (snd (remove_image m iid)) = 0 then - 1
           else min (current_index m) (get_image_count (snd (remove_image m iid)) - 1)))
   \<and> (a \<noteq> b \<and> a \<noteq> c \<and> b \<noteq> c \<longrightarrow>
        fst (goto_image (three_images a b c) c) \<and>
        current_index (snd (goto_image (three_images a b c) c)) = 2 \<and>
        fst (remove_image (snd (goto_image (three_images a b c) c)) c) = Inr True \<and>
        image_order (snd (remove_image (snd (goto_image (three_images a b c) c)) c)) = [a, b] \<and>
        current_index (snd (remove_image (snd (goto_image (three_images a b c) c)) c)) = 1)
   \<and> fst (remove_image (snd (add_image new_image_manager p md)) (img_id md)) = Inr True
   \<and> get_image_count (snd (remove_image (snd (add_image new_image_manager p md)) (img_id md))) = 0
   \<and> current_index (snd (remove_image (snd (add_image new_image_manager p md)) (img_id md))) = - 1"
proof -
  have general: "fst (remove_image m iid) = Inr True \<and>
        images (snd (remove_image m iid)) = (images m)(iid := None) \<and>
        image_order (snd (remove_image m iid)) = remove1 iid (image_order m) \<and>
        get_image_count (snd (remove_image m iid)) = get_image_count m - 1 \<and>
        current_index (snd (remove_image m iid)) =
          (if get_image_count (snd (remove_image m iid)) = 0 then - 1
           else min (current_index m) (get_image_count (snd (remove_image m iid)) - 1))"
    if k: "keys_ordered m" and p: "images m iid \<noteq> None"
  proof -
    from k p have i: "iid \<in> set (image_order m)"
      by (auto simp: keys_ordered_def)
    then have "0 < length (image_order m)"
      by (rule length_pos_if_in_set)
    with i have n: "length (image_order m) = Suc (length (remove1 iid (image_order m)))"
      by (simp add: length_remove1)
    show ?thesis
      unfolding remove_image_present [OF p i] get_image_count_def by (simp add: n)
  qed
  have sole: "remove_image (snd (add_image new_image_manager p md)) (img_id md)
                = (Inr True, new_image_manager)"
    by (rule remove_sole_image)
  have A: "images m iid = None \<longrightarrow> remove_image m iid = (Inr False, m)"
    using remove_image_absent [of m iid] by blast
  have B: "keys_ordered m \<and> images m iid \<noteq> None \<longrightarrow>
        fst (remove_image m iid) = Inr True \<and>
        images (snd (remove_image m iid)) = (images m)(iid := None) \<and>
        image_order (snd (remove_image m iid)) = remove1 iid (image_order m) \<and>
        get_image_count (snd (remove_image m iid)) = get_image_count m - 1 \<and>
        current_index (snd (remove_image m iid)) =
          (if get_image_count (snd (remove_image m iid)) = 0 then - 1
           else min (current_index m) (get_image_count (snd (remove_image m iid)) - 1))"
    using general by blast
  have C: "a \<noteq> b \<and> a \<noteq> c \<and> b \<noteq> c \<longrightarrow>
        fst (goto_image (three_images a b c) c) \<and>
        current_index (snd (goto_image (three_images a b c) c)) = 2 \<and>
        fst (remove_image (snd (goto_image (three_images a b c) c)) c) = Inr True \<and>
        image_order (snd (remove_image (snd (goto_image (three_images a b c) c)) c)) = [a, b] \<and>
        current_index (snd (remove_image (snd (goto_image (three_images a b c) c)) c)) = 1"
    using three_images_goto_remove [of a b c] by simp
  have D: "fst (remove_image (snd (add_image new_image_manager p md)) (img_id md)) = Inr True
   \<and> get_image_count (snd (remove_image (snd (add_image new_image_manager p md)) (img_id md))) = 0
   \<and> current_index (snd (remove_image (snd (add_image new_image_manager p md)) (img_id md))) = - 1"
    unfolding sole by (simp add: get_image_count_def new_image_manager_def)
  show ?thesis
    by (rule conjI [OF A conjI [OF B conjI [OF C D]]])
qed

theorem remove_image_cursor_witness:
  "keys_ordered (three_images ''a'' ''b'' ''c'') \<and>
   images (three_images ''a'' ''b'' ''c'') ''a'' \<noteq> None \<and>
   images (three_images ''a'' ''b'' ''c'') ''z'' = None \<and>
   remove_image (three_images ''a'' ''b'' ''c'') ''z'' = (Inr False, three_images ''a'' ''b'' ''c'') \<and>
   image_order (snd (remove_image (three_images ''a'' ''b'' ''c'') ''a'')) = [''b'', ''c''] \<and>
   current_index (snd (remove_image (snd (goto_image (three_images ''a'' ''b'' ''c'') ''c'')) ''c'')) = 1"
proof -
  have k: "keys_ordered (three_images ''a'' ''b'' ''c'')"
    unfolding three_images_def by (intro keys_ordered_add keys_ordered_new)
  have p: "images (three_images ''a'' ''b'' ''c'') ''a'' \<noteq> None"
    and n: "images (three_images ''a'' ''b'' ''c'') ''z'' = None"
    and o: "image_order (three_images ''a'' ''b'' ''c'') = [''a'', ''b'', ''c'']"
    by (simp_all add: three_images_eq)
  have d: "''a'' \<noteq> ''b'' \<and> ''a'' \<noteq> ''c'' \<and> ''b'' \<noteq> ''c''" by simp
  note t = remove_image_cursor [of "three_images ''a'' ''b'' ''c''" _ "''a''" "''b''" "''c''"]
  from n t [of "''z''"]
  have 1: "remove_image (three_images ''a'' ''b'' ''c'') ''z'' = (Inr False, three_images ''a'' ''b'' ''c'')"
    by blast
  from k p t [of "''a''"]
  have "image_order (snd (remove_image (three_images ''a'' ''b'' ''c'') ''a''))
          = remove1 ''a'' (image_order (three_images ''a'' ''b'' ''c''))"
    by blast
  then have 2: "image_order (snd (remove_image (three_images ''a'' ''b'' ''c'') ''a'')) = [''b'', ''c'']"
    by (simp add: o)
  from d t [of "''z''"]
  have 3: "current_index (snd (remove_image (snd (goto_image (three_images ''a'' ''b'' ''c'') ''c'')) ''c'')) = 1"
    by blast
  from k p n 1 2 3 show ?thesis by blast
qed

section \<open>The label registry\<close>

lemma dict_set_keys:
  "map fst (dict_set d k v) = (if k \<in> set (map fst d) then map fst d else map fst d @ [k])"
  by (induction d) auto

lemma is_dict_dict_set: "is_dict d \<Longrightarrow> is_dict (dict_set d k v)"
  by (simp add: is_dict_def dict_set_keys)

lemma dict_set_fresh: "k \<notin> set (map fst d) \<Longrightarrow> dict_set d k v = d @ [(k, v)]"
  by (induction d) auto

lemma is_dict_apply_label_op:
  "dict_argument f \<Longrightarrow> is_dict (labels m) \<Longrightarrow> is_dict (labels (apply_label_op m f))"
  by (cases f) (simp_all add: set_labels_def add_label_def is_dict_dict_set)

lemma is_dict_run_label_ops:
  "\<forall>f \<in> set ops. dict_argument f \<Longrightarrow> is_dict (labels m)
     \<Longrightarrow> is_dict (labels (run_label_ops m ops))"
  unfolding run_label_ops_def
  by (induction ops arbitrary: m) (simp_all add: is_dict_apply_label_op)

lemma dialog_add_label_unique:
  assumes "is_dict d" and "distinct (map snd d)"
  shows "is_dict (dialog_add_label d lid entered) \<and> distinct (map snd (dialog_add_label d lid entered))"
  using assms
  by (auto simp: dialog_add_label_def Let_def dict_has_def dict_set_fresh is_dict_def)

lemma dialog_add_label_rejects:
  "dict_has d lid \<or> py_strip entered \<in> set (map snd d) \<Longrightarrow> dialog_add_label d lid entered = d"
  by (auto simp: dialog_add_label_def Let_def)

text \<open>Two \<open>add_label\<close> calls with different ids and one name leave two entries of
  that name, and a second call with the same id replaces the name stored.\<close>

theorem label_names_counterexample:
  "\<not> distinct (map snd (labels (run_label_ops new_label_manager
                                   [AddLabel 1 ''cat'', AddLabel 2 ''cat''])))
   \<and> labels (run_label_ops new_label_manager [AddLabel 1 ''cat'', AddLabel 1 ''dog''])
       = [(1, ''dog'')]"
  by (simp add: run_label_ops_def new_label_manager_def add_label_def)

text \<open>
  C9, as amended. After every run of \<open>set_labels\<close> and \<open>add_label\<close> calls (each
  \<open>set_labels\<close> argument being a dictionary) no two entries of the registry share a label
  id; an id entered again is not rejected, its name is replaced. The registry does not
  compare names. The check of both constraints at entry time is the label setup
  dialog's: its \<open>_add_label\<close> leaves the dictionary as it was when the id or the stripped
  name is already present, so a dictionary with unique ids and unique names keeps both
  properties, and \<open>set_labels\<close> stores it unchanged.
\<close>

theorem label_registry_uniqueness:
  "((\<forall>f \<in> set ops. dict_argument f) \<and> is_dict (labels m) \<longrightarrow>
      distinct (map fst (labels (run_label_ops m ops))))
   \<and> (dict_has (labels m) lid \<longrightarrow>
        dict_get (labels (add_label m lid lname)) lid = Some lname \<and>
        map fst (labels (add_label m lid lname)) = map fst (labels m))
   \<and> (is_dict d \<and> distinct (map snd d) \<longrightarrow>
        distinct (map fst (dialog_add_label d lid entered)) \<and>
        distinct (map snd (dialog_add_label d lid entered)) \<and>
        labels (set_labels m (dialog_add_label d lid entered)) = dialog_add_label d lid entered)
   \<and> (dict_has d lid \<or> py_strip entered \<in> set (map snd d) \<longrightarrow> dialog_add_label d lid entered = d)"
proof -
  have A: "(\<forall>f \<in> set ops. dict_argument f) \<and> is_dict (labels m) \<longrightarrow>
      distinct (map fst (labels (run_label_ops m ops)))"
    using is_dict_run_label_ops [of ops m] by (auto simp: is_dict_def)
  have g: "map_of (dict_set e k v) k = Some v" for e :: "(int \<times> string) list" and k v
    by (induction e) auto
  have B: "dict_has (labels m) lid \<longrightarrow>
        dict_get (labels (add_label m lid lname)) lid = Some lname \<and>
        map fst (labels (add_label m lid lname)) = map fst (labels m)"
    by (simp add: add_label_def dict_get_def g dict_set_keys dict_has_def)
  have C: "is_dict d \<and> distinct (map snd d) \<longrightarrow>
        distinct (map fst (dialog_add_label d lid entered)) \<and>
        distinct (map snd (dialog_add_label d lid entered)) \<and>
        labels (set_labels m (dialog_add_label d lid entered)) = dialog_add_label d lid entered"
    using dialog_add_label_unique [of d lid entered] by (auto simp: is_dict_def set_labels_def)
  have D: "dict_has d lid \<or> py_strip entered \<in> set (map snd d) \<longrightarrow> dialog_add_label d lid entered = d"
    using dialog_add_label_rejects [of d lid entered] by blast
  show ?thesis
    by (rule conjI [OF A conjI [OF B conjI [OF C D]]])
qed

theorem label_registry_uniqueness_witness:
  "is_dict (labels new_label_manager) \<and>
   distinct (map fst (labels (run_label_ops new_label_manager
      [SetLabels [(1, ''cat'')], AddLabel 1 ''dog'', AddLabel 2 ''dog'']))) \<and>
   dict_has (labels (add_label new_label_manager 1 ''cat'')) 1 \<and>
   dict_get (labels (add_label (add_label new_label_manager 1 ''cat'') 1 ''dog'')) 1 = Some ''dog'' \<and>
   is_dict [(1 :: int, ''cat'')] \<and> distinct (map snd [(1 :: int, ''cat'')]) \<and>
   py_strip '' cat '' \<in> set (map snd [(1 :: int, ''cat'')]) \<and>
   dialog_add_label [(1, ''cat'')] 2 '' cat '' = [(1, ''cat'')] \<and>
   distinct (map snd (dialog_add_label [(1, ''cat'')] 2 ''dog''))"
proof -
  have h1: "\<forall>f \<in> set [SetLabels [(1, ''cat'')], AddLabel 1 ''dog'', AddLabel 2 ''dog'']. dict_argument f"
    and h2: "is_dict (labels new_label_manager)"
    and h3: "dict_has (labels (add_label new_label_manager 1 ''cat'')) 1"
    and h4: "is_dict [(1 :: int, ''cat'')]" and h5: "distinct (map snd [(1 :: int, ''cat'')])"
    by (simp_all add: is_dict_def new_label_manager_def add_label_def dict_has_def)
  have h6: "py_strip '' cat '' \<in> set (map snd [(1 :: int, ''cat'')])"
    by (simp add: py_strip_def py_isspace_def)
  from h1 h2 label_registry_uniqueness
    [of "[SetLabels [(1, ''cat'')], AddLabel 1 ''dog'', AddLabel 2 ''dog'']" new_label_manager]
  have c1: "distinct (map fst (labels (run_label_ops new_label_manager
      [SetLabels [(1, ''cat'')], AddLabel 1 ''dog'', AddLabel 2 ''dog''])))"
    by blast
  from h3 label_registry_uniqueness [of _ "add_label new_label_manager 1 ''cat''" 1 "''dog''"]
  have c2: "dict_get (labels (add_label (add_label new_label_manager 1 ''cat'') 1 ''dog'')) 1
              = Some ''dog''"
    by blast
  from h6 label_registry_uniqueness [of _ _ 2 _ "[(1, ''cat'')]" "'' cat ''"]
  have c3: "dialog_add_label [(1, ''cat'')] 2 '' cat '' = [(1, ''cat'')]"
    by blast
  from h4 h5 label_registry_uniqueness [of _ _ 2 _ "[(1, ''cat'')]" "''dog''"]
  have c4: "distinct (map snd (dialog_add_label [(1, ''cat'')] 2 ''dog''))"
    by blast
  from h2 h3 h4 h5 h6 c1 c2 c3 c4 show ?thesis by blast
qed

section \<open>The coordinate round trip\<close>



section \<open>The export loops in closed form\<close>

lemma boxes_present_simps:
  "boxes_present []"
  "boxes_present (a # rest) \<longleftrightarrow> bounding_box a \<noteq> None \<and> boxes_present rest"
  "boxes_present (xs @ ys) \<longleftrightarrow> boxes_present xs \<and> boxes_present ys"
  by (auto simp: boxes_present_def)

lemma all_annotations_simps:
  "all_annotations [] = []"
  "all_annotations (img # rest) = annotations img @ all_annotations rest"
  by (simp_all add: all_annotations_def)

lemma csv_rows_of_annotations_closed:
  "csv_rows_of_annotations fname anns rows =
     (if boxes_present anns then Inr (rows @ map (csv_row_of fname) anns)
      else Inl (AttributeError ''x''))"
  by (induction anns arbitrary: rows)
     (auto simp: boxes_present_simps csv_row_of_def split: option.splits)

lemma csv_rows_of_images_closed:
  "csv_rows_of_images imgs rows =
     (if boxes_present (all_annotations imgs)
      then Inr (rows @ concat (map (\<lambda>img. map (csv_row_of (filename img)) (annotations img)) imgs))
      else Inl (AttributeError ''x''))"
  by (induction imgs arbitrary: rows)
     (auto simp: boxes_present_simps all_annotations_simps csv_rows_of_annotations_closed)

lemma export_annotations_closed:
  "export_annotations idx anns st =
     (if boxes_present anns
      then Inr (st\<lparr>st_annotations := st_annotations st @ annotation_entries (annotation_id st) idx anns,
                  categories_map := foldl track_category (categories_map st) anns,
                  annotation_id := annotation_id st + int (length anns)\<rparr>)
      else Inl (AttributeError ''x''))"
  by (induction anns arbitrary: st)
     (auto simp: boxes_present_simps Let_def split: option.splits)

lemma export_images_closed:
  "export_images idx imgs st =
     (if boxes_present (all_annotations imgs)
      then Inr (st\<lparr>st_images := st_images st @ image_entries idx imgs,
                  st_annotations := st_annotations st @ all_entries (annotation_id st) idx imgs,
                  categories_map := foldl track_category (categories_map st) (all_annotations imgs),
                  annotation_id := annotation_id st + int (length (all_annotations imgs))\<rparr>)
      else Inl (AttributeError ''x''))"
  by (induction imgs arbitrary: st idx)
     (auto simp: boxes_present_simps all_annotations_simps export_annotations_closed)

lemma length_annotation_entries: "length (annotation_entries aid idx anns) = length anns"
  by (induction anns arbitrary: aid) auto

lemma length_all_entries: "length (all_entries aid idx imgs) = length (all_annotations imgs)"
  by (induction imgs arbitrary: aid idx) (auto simp: all_annotations_simps length_annotation_entries)

lemma export_to_coco_closed:
  "export_to_coco pf yr created imgs out =
     (if imgs = [] then (Inl (ValueError ''No images to export''), pf)
      else if \<not> boxes_present (all_annotations imgs) then (Inl (AttributeError ''x''), pf)
      else if all_annotations imgs = [] then (Inl (ValueError ''No annotations to export''), pf)
      else if \<not> writable pf out then (Inl (OSError out), pf)
      else (Inr (), pf\<lparr>files := (files pf)(out \<mapsto> JsonDoc (export_document yr created imgs))\<rparr>))"
proof -
  have e: "all_entries 1 1 imgs = [] \<longleftrightarrow> all_annotations imgs = []"
    using length_all_entries [of 1 1 imgs] by (metis length_0_conv)
  show ?thesis
    by (simp add: export_to_coco_def export_images_closed Let_def e write_file_def export_document_def)
qed

lemma export_to_csv_closed:
  "export_to_csv pf imgs out =
     (if imgs = [] then (Inl (ValueError ''No images to export''), pf)
      else if \<not> boxes_present (all_annotations imgs) then (Inl (AttributeError ''x''), pf)
      else if all_annotations imgs = [] then (Inl (ValueError ''No annotations to export''), pf)
      else if \<not> writable pf out then (Inl (OSError out), pf)
      else (Inr (), pf\<lparr>files := (files pf)(out \<mapsto> CsvDoc csv_fieldnames
              (concat (map (\<lambda>img. map (csv_row_of (filename img)) (annotations img)) imgs)))\<rparr>))"
proof -
  have e: "concat (map (\<lambda>img. map (csv_row_of (filename img)) (annotations img)) imgs) = []
             \<longleftrightarrow> all_annotations imgs = []"
    by (auto simp: all_annotations_def)
  show ?thesis
    unfolding export_to_csv_def csv_rows_of_images_closed write_file_def
    using e by (simp add: boxes_present_simps)
qed

lemma dict_get_dict_set: "dict_get (dict_set d k v) k' = (if k' = k then Some v else dict_get d k')"
  unfolding dict_get_def by (induction d) auto

lemma dict_has_iff: "dict_has d k \<longleftrightarrow> dict_get d k \<noteq> None"
  by (simp add: dict_has_def dict_get_def map_of_eq_None_iff)

lemma dict_set_key_set: "fst ` set (dict_set d k v) = insert k (fst ` set d)"
  by (induction d) auto

lemma track_category_keys:
  "fst ` set (foldl track_category cm anns) = fst ` set cm \<union> label_id ` set anns"
  by (induction anns arbitrary: cm) (auto simp: track_category_def dict_set_key_set dict_has_def)

lemma track_category_is_dict: "is_dict cm \<Longrightarrow> is_dict (foldl track_category cm anns)"
  by (induction anns arbitrary: cm) (auto simp: track_category_def dict_set_keys dict_has_def is_dict_def)

lemma track_category_get:
  "dict_get (foldl track_category cm anns) lid =
     (case dict_get cm lid of
        Some n \<Rightarrow> Some n
      | None \<Rightarrow> map_option label_name (find (\<lambda>a. label_id a = lid) anns))"
proof (induction anns arbitrary: cm)
  case Nil
  then show ?case by (simp split: option.splits)
next
  case (Cons a anns)
  show ?case
    unfolding foldl_Cons Cons.IH
    by (auto simp: track_category_def dict_get_dict_set dict_has_iff split: option.splits)
qed

lemma category_entries_ids: "map cat_id (category_entries cm) = sort (map fst cm)"
  by (simp add: category_entries_def comp_def)

lemma image_entries_ids: "map ci_id (image_entries idx imgs) = [idx .. idx + int (length imgs) - 1]"
proof (induction imgs arbitrary: idx)
  case Nil
  then show ?case by simp
next
  case (Cons img imgs)
  have "[idx .. idx + int (length (img # imgs)) - 1] = idx # [idx + 1 .. idx + int (length (img # imgs)) - 1]"
    by (rule upto_rec1) simp
  then show ?case
    using Cons.IH [of "idx + 1"] by (simp add: coco_image_entry_def add.commute add.left_commute)
qed

lemma image_entries_names: "map ci_file_name (image_entries idx imgs) = map filename imgs"
  by (induction imgs arbitrary: idx) (auto simp: coco_image_entry_def)

lemma annotation_entries_ids:
  "map ca_id (annotation_entries aid idx anns) = [aid .. aid + int (length anns) - 1]"
proof (induction anns arbitrary: aid)
  case Nil
  then show ?case by simp
next
  case (Cons a anns)
  have "[aid .. aid + int (length (a # anns)) - 1] = aid # [aid + 1 .. aid + int (length (a # anns)) - 1]"
    by (rule upto_rec1) simp
  then show ?case
    using Cons.IH [of "aid + 1"] by (simp add: coco_annotation_entry_def add.commute add.left_commute)
qed

lemma upto_append: "0 \<le> m \<Longrightarrow> 0 \<le> n \<Longrightarrow> [a .. a + m - 1] @ [a + m .. a + m + n - 1] = [a .. a + m + n - 1]"
  for a m n :: int
proof -
  assume m: "0 \<le> m" and n: "0 \<le> n"
  show ?thesis
  proof (cases "m = 0 \<or> n = 0")
    case True
    then show ?thesis by auto
  next
    case False
    with m n have "a \<le> a + m - 1" "a + m - 1 \<le> a + m + n - 1" by simp_all
    from upto_split2 [OF this] show ?thesis by simp
  qed
qed

lemma all_entries_ids:
  "map ca_id (all_entries aid idx imgs) = [aid .. aid + int (length (all_annotations imgs)) - 1]"
proof (induction imgs arbitrary: aid idx)
  case Nil
  then show ?case by (simp add: all_annotations_simps)
next
  case (Cons img imgs)
  show ?case
    using upto_append [of "int (length (annotations img))" "int (length (all_annotations imgs))" aid]
    by (simp add: all_annotations_simps annotation_entries_ids Cons.IH add.assoc)
qed

lemma annotation_entries_payload:
  "boxes_present anns \<Longrightarrow> list_all2 entry_of (annotation_entries aid idx anns) anns"
  by (induction anns arbitrary: aid)
     (auto simp: boxes_present_simps entry_of_def coco_annotation_entry_def)

lemma all_entries_payload:
  "boxes_present (all_annotations imgs)
     \<Longrightarrow> list_all2 entry_of (all_entries aid idx imgs) (all_annotations imgs)"
  by (induction imgs arbitrary: aid idx)
     (auto simp: boxes_present_simps all_annotations_simps annotation_entries_payload
           intro: list_all2_appendI)

section \<open>Exports with nothing to export, or with a missing box\<close>

text \<open>
  C6. Both exports raise the empty-export error (\<open>ValueError\<close> in the source, with the
  message "No images to export" or "No annotations to export") when the image list is
  empty or when the images hold no annotation at all, and the platform after the call
  is the platform before it: no file is written.
\<close>

theorem export_empty_raises:
  "(imgs = [] \<longrightarrow>
      export_to_csv pf imgs out = (Inl (ValueError ''No images to export''), pf) \<and>
      export_to_coco pf yr created imgs out = (Inl (ValueError ''No images to export''), pf))
   \<and> (imgs \<noteq> [] \<and> all_annotations imgs = [] \<longrightarrow>
      export_to_csv pf imgs out = (Inl (ValueError ''No annotations to export''), pf) \<and>
      export_to_coco pf yr created imgs out = (Inl (ValueError ''No annotations to export''), pf))
   \<and> (imgs = [] \<or> all_annotations imgs = [] \<longrightarrow>
      files (snd (export_to_csv pf imgs out)) = files pf \<and>
      files (snd (export_to_coco pf yr created imgs out)) = files pf)"
  by (simp add: export_to_csv_closed export_to_coco_closed boxes_present_simps)

theorem export_empty_raises_witness:
  "all_annotations [unlabelled_image] = [] \<and>
   export_to_csv sample_platform [unlabelled_image] ''/out.csv''
     = (Inl (ValueError ''No annotations to export''), sample_platform) \<and>
   export_to_coco sample_platform 2024 ''now'' [unlabelled_image] ''/out.json''
     = (Inl (ValueError ''No annotations to export''), sample_platform) \<and>
   export_to_csv sample_platform [] ''/out.csv''
     = (Inl (ValueError ''No images to export''), sample_platform) \<and>
   files (snd (export_to_coco sample_platform 2024 ''now'' [] ''/out.json'')) = files sample_platform"
proof -
  have e: "all_annotations [unlabelled_image] = []"
    by (simp add: all_annotations_def unlabelled_image_def blank_image_def)
  have n: "[unlabelled_image] \<noteq> []" by simp
  note t = export_empty_raises [of "[unlabelled_image]" sample_platform _ 2024 "''now''"]
  note u = export_empty_raises [of "[]" sample_platform _ 2024 "''now''"]
  from e n t [of "''/out.csv''"]
  have 1: "export_to_csv sample_platform [unlabelled_image] ''/out.csv''
     = (Inl (ValueError ''No annotations to export''), sample_platform)" by blast
  from e n t [of "''/out.json''"]
  have 2: "export_to_coco sample_platform 2024 ''now'' [unlabelled_image] ''/out.json''
     = (Inl (ValueError ''No annotations to export''), sample_platform)" by blast
  from u [of "''/out.csv''"]
  have 3: "export_to_csv sample_platform [] ''/out.csv''
     = (Inl (ValueError ''No images to export''), sample_platform)" by blast
  from u [of "''/out.json''"]
  have 4: "files (snd (export_to_coco sample_platform 2024 ''now'' [] ''/out.json'')) = files sample_platform"
    by blast
  from e 1 2 3 4 show ?thesis by blast
qed

text \<open>
  C10. With validation disabled, \<open>create_annotation\<close> accepts an absent box and stores
  the annotation; once that annotation is attached to an image, \<open>export_to_csv\<close> on any
  list containing the image raises \<open>AttributeError\<close> (reading \<open>bounding_box.x\<close>) and
  writes nothing. For a non-empty image list the export raises \<open>AttributeError\<close>
  exactly when some annotation has no box, and then the error is never the
  \<open>ValueError\<close> of an empty export or of validation.
\<close>

theorem csv_export_missing_box:
  "(\<not> validation_enabled m \<longrightarrow>
      (\<exists>a. fst (create_annotation m new_id t1 t2 iid None lid lname) = Inr a \<and>
           bounding_box a = None \<and>
           mgr_annotations (snd (create_annotation m new_id t1 t2 iid None lid lname)) new_id = Some a \<and>
           export_to_csv pf (before @ [add_annotation img a] @ after) out
             = (Inl (AttributeError ''x''), pf)))
   \<and> (imgs \<noteq> [] \<longrightarrow>
        ((\<exists>msg. fst (export_to_csv pf imgs out) = Inl (AttributeError msg))
           \<longleftrightarrow> (\<exists>a \<in> set (all_annotations imgs). bounding_box a = None)))
   \<and> ((\<exists>a \<in> set (all_annotations imgs). bounding_box a = None) \<longrightarrow>
        (\<forall>msg. fst (export_to_csv pf imgs out) \<noteq> Inl (ValueError msg)) \<and>
        snd (export_to_csv pf imgs out) = pf)"
proof -
  let ?a = "\<lparr>ann_id = new_id, bounding_box = None, label_id = lid,
              label_name = lname, image_id = iid, created_at = t1, modified_at = t2\<rparr>"
  have c: "create_annotation m new_id t1 t2 iid None lid lname
             = (Inr ?a, m\<lparr>mgr_annotations := (mgr_annotations m)(new_id \<mapsto> ?a)\<rparr>)"
    if "\<not> validation_enabled m"
    using that by (simp add: create_annotation_def Let_def)
  have x: "export_to_csv pf (before @ [add_annotation img ?a] @ after) out
             = (Inl (AttributeError ''x''), pf)"
    by (simp add: export_to_csv_closed all_annotations_def boxes_present_def add_annotation_def)
  have A: "\<not> validation_enabled m \<longrightarrow>
      (\<exists>a. fst (create_annotation m new_id t1 t2 iid None lid lname) = Inr a \<and>
           bounding_box a = None \<and>
           mgr_annotations (snd (create_annotation m new_id t1 t2 iid None lid lname)) new_id = Some a \<and>
           export_to_csv pf (before @ [add_annotation img a] @ after) out
             = (Inl (AttributeError ''x''), pf))"
  proof
    assume "\<not> validation_enabled m"
    from c [OF this] x show "\<exists>a. fst (create_annotation m new_id t1 t2 iid None lid lname) = Inr a \<and>
           bounding_box a = None \<and>
           mgr_annotations (snd (create_annotation m new_id t1 t2 iid None lid lname)) new_id = Some a \<and>
           export_to_csv pf (before @ [add_annotation img a] @ after) out
             = (Inl (AttributeError ''x''), pf)"
      by (intro exI [of _ ?a]) simp
  qed
  have B: "imgs \<noteq> [] \<longrightarrow>
        ((\<exists>msg. fst (export_to_csv pf imgs out) = Inl (AttributeError msg))
           \<longleftrightarrow> (\<exists>a \<in> set (all_annotations imgs). bounding_box a = None))"
    by (auto simp: export_to_csv_closed boxes_present_def)
  have C: "(\<exists>a \<in> set (all_annotations imgs). bounding_box a = None) \<longrightarrow>
        (\<forall>msg. fst (export_to_csv pf imgs out) \<noteq> Inl (ValueError msg)) \<and>
        snd (export_to_csv pf imgs out) = pf"
    by (auto simp: export_to_csv_closed boxes_present_def all_annotations_def)
  show ?thesis
    by (rule conjI [OF A conjI [OF B C]])
qed

theorem csv_export_missing_box_witness:
  "\<not> validation_enabled (new_manager False) \<and>
   (\<exists>a. fst (create_annotation (new_manager False) ''u1'' 1 2 ''i1'' None 3 ''cat'') = Inr a \<and>
        bounding_box a = None \<and>
        export_to_csv sample_platform ([] @ [add_annotation unlabelled_image a] @ []) ''/out.csv''
          = (Inl (AttributeError ''x''), sample_platform))"
proof -
  have f: "\<not> validation_enabled (new_manager False)"
    by (simp add: new_manager_def)
  from f csv_export_missing_box
    [of "new_manager False" "''u1''" 1 2 "''i1''" 3 "''cat''" sample_platform "[]" unlabelled_image "[]"
        "''/out.csv''"]
  have "\<exists>a. fst (create_annotation (new_manager False) ''u1'' 1 2 ''i1'' None 3 ''cat'') = Inr a \<and>
        bounding_box a = None \<and>
        export_to_csv sample_platform ([] @ [add_annotation unlabelled_image a] @ []) ''/out.csv''
          = (Inl (AttributeError ''x''), sample_platform)"
    by blast
  with f show ?thesis by blast
qed

section \<open>The COCO document\<close>

lemma tracked_get:
  "dict_get (foldl track_category [] anns) lid = first_name anns lid"
proof -
  have "dict_get ([] :: (int \<times> string) list) lid = None"
    by (simp add: dict_get_def)
  then show ?thesis
    by (simp add: track_category_get first_name_def)
qed

lemma tracked_keys: "set (map fst (foldl track_category [] anns)) = label_id ` set anns"
  using track_category_keys [of "[]" anns] by simp

lemma tracked_is_dict: "is_dict (foldl track_category [] anns)"
  by (rule track_category_is_dict) (simp add: is_dict_def)

lemma first_name_Some:
  "first_name anns lid = Some n \<longleftrightarrow>
     (\<exists>a. find (\<lambda>a. label_id a = lid) anns = Some a \<and> label_name a = n)"
  by (auto simp: first_name_def)

lemma first_name_used: "first_name anns lid = Some n \<Longrightarrow> (lid, n) \<in> (\<lambda>a. (label_id a, label_name a)) ` set anns"
  by (auto simp: first_name_def find_Some_iff image_iff)

lemma first_name_present: "a \<in> set anns \<Longrightarrow> \<exists>n. first_name anns (label_id a) = Some n"
  by (cases "find (\<lambda>b. label_id b = label_id a) anns") (auto simp: first_name_def find_None_iff)

lemma category_entries_tracked:
  assumes "c \<in> set (category_entries (foldl track_category [] anns))"
  shows "first_name anns (cat_id c) = Some (cat_name c)"
proof -
  let ?cm = "foldl track_category [] anns"
  from assms obtain lid where l: "lid \<in> set (map fst ?cm)"
    and c: "c = \<lparr>cat_id = lid, cat_name = (case dict_get ?cm lid of Some n \<Rightarrow> n | None \<Rightarrow> []),
                 cat_supercategory = []\<rparr>"
    by (auto simp: category_entries_def)
  from l have "lid \<in> label_id ` set anns"
    using tracked_keys [of anns] by simp
  then obtain n where "first_name anns lid = Some n"
    using first_name_present by auto
  with c show ?thesis by (simp add: tracked_get)
qed

lemma category_pairs_tracked:
  "set (category_pairs (category_entries (foldl track_category [] anns)))
     = {(lid, n). first_name anns lid = Some n}"
proof -
  let ?cats = "category_entries (foldl track_category [] anns)"
  have "p \<in> set (category_pairs ?cats) \<longleftrightarrow> first_name anns (fst p) = Some (snd p)" for p
  proof
    assume "p \<in> set (category_pairs ?cats)"
    then obtain c where "c \<in> set ?cats" "p = (cat_id c, cat_name c)"
      by (auto simp: category_pairs_def)
    with category_entries_tracked [of c anns] show "first_name anns (fst p) = Some (snd p)"
      by simp
  next
    assume f: "first_name anns (fst p) = Some (snd p)"
    then have "fst p \<in> label_id ` set anns"
      using first_name_used [of anns "fst p" "snd p"] by (auto simp: image_iff)
    then have "fst p \<in> set (map cat_id ?cats)"
      using tracked_keys [of anns] by (simp add: category_entries_ids)
    then obtain c where c: "c \<in> set ?cats" "cat_id c = fst p"
      by auto
    with category_entries_tracked [of c anns] f have "cat_name c = snd p"
      by simp
    with c show "p \<in> set (category_pairs ?cats)"
      by (force simp: category_pairs_def image_iff)
  qed
  then show ?thesis by auto
qed

lemma find_Some_member: "find P xs = Some x \<Longrightarrow> x \<in> set xs \<and> P x"
  by (induction xs) (auto split: if_splits)

lemma consistent_first_name:
  assumes "consistent_names anns" and "a \<in> set anns"
  shows "first_name anns (label_id a) = Some (label_name a)"
proof -
  from first_name_present [OF assms(2)] obtain n where n: "first_name anns (label_id a) = Some n"
    by blast
  then obtain b where b: "find (\<lambda>b. label_id b = label_id a) anns = Some b" and nb: "label_name b = n"
    unfolding first_name_Some by blast
  from find_Some_member [OF b] have m: "b \<in> set anns" and l: "label_id b = label_id a"
    by simp_all
  from assms(1) m assms(2) l have "label_name b = label_name a"
    unfolding consistent_names_def by blast
  with n nb show ?thesis by simp
qed

lemma export_to_coco_success:
  assumes "export_to_coco pf yr created imgs out = (Inr (), pf')"
  shows "imgs \<noteq> []" "all_annotations imgs \<noteq> []" "boxes_present (all_annotations imgs)"
    "writable pf out"
    "pf' = pf\<lparr>files := (files pf)(out \<mapsto> JsonDoc (export_document yr created imgs))\<rparr>"
proof -
  show 1: "imgs \<noteq> []"
    using assms by (auto simp: export_to_coco_closed)
  show 2: "boxes_present (all_annotations imgs)"
  proof (rule ccontr)
    assume "\<not> boxes_present (all_annotations imgs)"
    with 1 assms show False by (simp add: export_to_coco_closed)
  qed
  show 3: "all_annotations imgs \<noteq> []"
  proof
    assume "all_annotations imgs = []"
    with 1 assms show False by (simp add: export_to_coco_closed boxes_present_simps)
  qed
  show 4: "writable pf out"
  proof (rule ccontr)
    assume "\<not> writable pf out"
    with 1 2 3 assms show False by (simp add: export_to_coco_closed)
  qed
  from 1 2 3 4 have "export_to_coco pf yr created imgs out =
      (Inr (), pf\<lparr>files := (files pf)(out \<mapsto> JsonDoc (export_document yr created imgs))\<rparr>)"
    by (simp add: export_to_coco_closed)
  with assms show "pf' = pf\<lparr>files := (files pf)(out \<mapsto> JsonDoc (export_document yr created imgs))\<rparr>"
    by (simp only: prod.inject)
qed

text \<open>
  C3, as amended. \<open>export_to_coco\<close> succeeds on a non-empty image list with at least one
  annotation when every annotation has a box and the output can be written. Whenever
  it succeeds, the document written numbers the images 1, 2, ... in input order, numbers
  the annotations 1, 2, ... in the order they are met across the images, gives each
  annotation entry the label id as category, \<open>bbox = [x, y, width, height]\<close>,
  \<open>area = width * height\<close>, an empty segmentation and \<open>iscrowd = 0\<close>, and lists one
  category per distinct label id used, ascending by id, named as the first annotation
  met with that id. Every category pair is a pair actually used; the category pairs are
  exactly the pairs used when no label id is used with two names.
\<close>

theorem coco_export_document:
  "(imgs \<noteq> [] \<and> all_annotations imgs \<noteq> [] \<and> boxes_present (all_annotations imgs) \<and> writable pf out
      \<longrightarrow> fst (export_to_coco pf yr created imgs out) = Inr ())
   \<and> (export_to_coco pf yr created imgs out = (Inr (), pf') \<longrightarrow>
        imgs \<noteq> [] \<and> all_annotations imgs \<noteq> [] \<and>
        (\<exists>doc images anns cats.
           files pf' out = Some (JsonDoc doc) \<and>
           cd_images doc = Some images \<and> cd_annotations doc = Some anns \<and>
           cd_categories doc = Some cats \<and>
           map ci_id images = [1 .. int (length imgs)] \<and>
           map ci_file_name images = map filename imgs \<and>
           map ca_id anns = [1 .. int (length (all_annotations imgs))] \<and>
           list_all2 entry_of anns (all_annotations imgs) \<and>
           sorted (map cat_id cats) \<and> distinct (map cat_id cats) \<and>
           set (map cat_id cats) = label_id ` set (all_annotations imgs) \<and>
           (\<forall>c \<in> set cats. first_name (all_annotations imgs) (cat_id c) = Some (cat_name c)) \<and>
           set (category_pairs cats) \<subseteq> set (used_labels imgs) \<and>
           (consistent_names (all_annotations imgs) \<longrightarrow>
              set (category_pairs cats) = set (used_labels imgs))))"
proof -
  let ?all = "all_annotations imgs"
  let ?cm = "foldl track_category [] ?all"
  let ?cats = "category_entries ?cm"
  let ?doc = "export_document yr created imgs"
  have A: "imgs \<noteq> [] \<and> ?all \<noteq> [] \<and> boxes_present ?all \<and> writable pf out
      \<longrightarrow> fst (export_to_coco pf yr created imgs out) = Inr ()"
    by (simp add: export_to_coco_closed)
  have B: "export_to_coco pf yr created imgs out = (Inr (), pf') \<longrightarrow>
        imgs \<noteq> [] \<and> ?all \<noteq> [] \<and>
        (\<exists>doc images anns cats.
           files pf' out = Some (JsonDoc doc) \<and>
           cd_images doc = Some images \<and> cd_annotations doc = Some anns \<and>
           cd_categories doc = Some cats \<and>
           map ci_id images = [1 .. int (length imgs)] \<and>
           map ci_file_name images = map filename imgs \<and>
           map ca_id anns = [1 .. int (length ?all)] \<and>
           list_all2 entry_of anns ?all \<and>
           sorted (map cat_id cats) \<and> distinct (map cat_id cats) \<and>
           set (map cat_id cats) = label_id ` set ?all \<and>
           (\<forall>c \<in> set cats. first_name ?all (cat_id c) = Some (cat_name c)) \<and>
           set (category_pairs cats) \<subseteq> set (used_labels imgs) \<and>
           (consistent_names ?all \<longrightarrow> set (category_pairs cats) = set (used_labels imgs)))"
  proof
    assume ok: "export_to_coco pf yr created imgs out = (Inr (), pf')"
    note s = export_to_coco_success [OF ok]
    have f: "files pf' out = Some (JsonDoc ?doc)"
      unfolding s(5) by simp
    have d1: "cd_images ?doc = Some (image_entries 1 imgs)"
      and d2: "cd_annotations ?doc = Some (all_entries 1 1 imgs)"
      and d3: "cd_categories ?doc = Some ?cats"
      by (simp_all add: export_document_def)
    have i1: "map ci_id (image_entries 1 imgs) = [1 .. int (length imgs)]"
      by (simp add: image_entries_ids)
    have i2: "map ci_file_name (image_entries 1 imgs) = map filename imgs"
      by (rule image_entries_names)
    have a1: "map ca_id (all_entries 1 1 imgs) = [1 .. int (length ?all)]"
      by (simp add: all_entries_ids)
    have a2: "list_all2 entry_of (all_entries 1 1 imgs) ?all"
      using s(3) by (rule all_entries_payload)
    have c1: "sorted (map cat_id ?cats)"
      by (simp add: category_entries_ids)
    have c2: "distinct (map cat_id ?cats)"
      using tracked_is_dict [of ?all] by (simp add: category_entries_ids is_dict_def)
    have c3: "set (map cat_id ?cats) = label_id ` set ?all"
      using tracked_keys [of ?all] by (simp add: category_entries_ids)
    have c4: "\<forall>c \<in> set ?cats. first_name ?all (cat_id c) = Some (cat_name c)"
      using category_entries_tracked by blast
    have c5: "set (category_pairs ?cats) \<subseteq> set (used_labels imgs)"
      unfolding category_pairs_tracked used_labels_def
      using first_name_used [of ?all] by auto
    have c6: "consistent_names ?all \<longrightarrow> set (category_pairs ?cats) = set (used_labels imgs)"
    proof
      assume c: "consistent_names ?all"
      have "set (used_labels imgs) \<subseteq> set (category_pairs ?cats)"
        unfolding category_pairs_tracked used_labels_def
        using consistent_first_name [OF c] by auto
      with c5 show "set (category_pairs ?cats) = set (used_labels imgs)"
        by (rule equalityI)
    qed
    have "\<exists>doc images anns cats.
           files pf' out = Some (JsonDoc doc) \<and>
           cd_images doc = Some images \<and> cd_annotations doc = Some anns \<and>
           cd_categories doc = Some cats \<and>
           map ci_id images = [1 .. int (length imgs)] \<and>
           map ci_file_name images = map filename imgs \<and>
           map ca_id anns = [1 .. int (length ?all)] \<and>
           list_all2 entry_of anns ?all \<and>
           sorted (map cat_id cats) \<and> distinct (map cat_id cats) \<and>
           set (map cat_id cats) = label_id ` set ?all \<and>
           (\<forall>c \<in> set cats. first_name ?all (cat_id c) = Some (cat_name c)) \<and>
           set (category_pairs cats) \<subseteq> set (used_labels imgs) \<and>
           (consistent_names ?all \<longrightarrow> set (category_pairs cats) = set (used_labels imgs))"
      apply (rule exI [of _ ?doc])
      apply (rule exI [of _ "image_entries 1 imgs"])
      apply (rule exI [of _ "all_entries 1 1 imgs"])
      apply (rule exI [of _ ?cats])
      apply (intro conjI)
      apply (fact f d1 d2 d3 i1 i2 a1 a2 c1 c2 c3 c4 c5 c6)+
      done
    with s(1) s(2) show "imgs \<noteq> [] \<and> ?all \<noteq> [] \<and>
        (\<exists>doc images anns cats.
           files pf' out = Some (JsonDoc doc) \<and>
           cd_images doc = Some images \<and> cd_annotations doc = Some anns \<and>
           cd_categories doc = Some cats \<and>
           map ci_id images = [1 .. int (length imgs)] \<and>
           map ci_file_name images = map filename imgs \<and>
           map ca_id anns = [1 .. int (length ?all)] \<and>
           list_all2 entry_of anns ?all \<and>
           sorted (map cat_id cats) \<and> distinct (map cat_id cats) \<and>
           set (map cat_id cats) = label_id ` set ?all \<and>
           (\<forall>c \<in> set cats. first_name ?all (cat_id c) = Some (cat_name c)) \<and>
           set (category_pairs cats) \<subseteq> set (used_labels imgs) \<and>
           (consistent_names ?all \<longrightarrow> set (category_pairs cats) = set (used_labels imgs)))"
      by (intro conjI)
  qed
  show ?thesis
    by (rule conjI [OF A B])
qed

text \<open>An image whose two annotations carry label id 1 under the names \<open>cat\<close> and \<open>dog\<close>
  exports the single category \<open>(1, cat)\<close>: the pair \<open>(1, dog)\<close> is used and not listed.\<close>

theorem coco_categories_counterexample:
  "fst (export_to_coco sample_platform 2024 ''now'' [two_names_image] ''/out.json'') = Inr () \<and>
   exported_categories (snd (export_to_coco sample_platform 2024 ''now'' [two_names_image] ''/out.json''))
      ''/out.json'' = [(1, ''cat'')] \<and>
   used_labels [two_names_image] = [(1, ''cat''), (1, ''dog'')]"
  by (simp add: export_to_coco_closed boxes_present_def all_annotations_def two_names_image_def
      blank_image_def sample_annotation_def sample_platform_def exported_categories_def
      export_document_def category_entries_def category_pairs_def track_category_def
      dict_has_def dict_get_def used_labels_def)

lemma two_names_all: "all_annotations [two_names_image] =
    [sample_annotation, sample_annotation\<lparr>ann_id := ''a2'', label_name := ''dog''\<rparr>]"
  by (simp add: all_annotations_def two_names_image_def)

theorem coco_export_document_witness:
  "fst (export_to_coco sample_platform 2024 ''now'' [two_names_image] ''/out.json'') = Inr () \<and>
   (\<exists>doc images anns cats.
      files (snd (export_to_coco sample_platform 2024 ''now'' [two_names_image] ''/out.json''))
        ''/out.json'' = Some (JsonDoc doc) \<and>
      cd_images doc = Some images \<and> cd_annotations doc = Some anns \<and>
      cd_categories doc = Some cats \<and>
      map ci_id images = [1] \<and> map ca_id anns = [1, 2] \<and>
      list_all2 entry_of anns (all_annotations [two_names_image]) \<and>
      sorted (map cat_id cats) \<and> distinct (map cat_id cats))"
proof -
  let ?e = "export_to_coco sample_platform 2024 ''now'' [two_names_image] ''/out.json''"
  note t = coco_export_document [of "[two_names_image]" sample_platform "''/out.json''" 2024 "''now''" "snd ?e"]
  have h: "[two_names_image] \<noteq> [] \<and> all_annotations [two_names_image] \<noteq> [] \<and>
      boxes_present (all_annotations [two_names_image]) \<and> writable sample_platform ''/out.json''"
    by (simp add: two_names_all boxes_present_def sample_annotation_def sample_platform_def)
  with t have f: "fst ?e = Inr ()" by blast
  then have "?e = (Inr (), snd ?e)"
    by (metis prod.collapse)
  with t obtain doc images anns cats where
      "files (snd ?e) ''/out.json'' = Some (JsonDoc doc)"
      "cd_images doc = Some images" "cd_annotations doc = Some anns" "cd_categories doc = Some cats"
      "map ci_id images = [1 .. int (length [two_names_image])]"
      "map ca_id anns = [1 .. int (length (all_annotations [two_names_image]))]"
      "list_all2 entry_of anns (all_annotations [two_names_image])"
      "sorted (map cat_id cats)" "distinct (map cat_id cats)"
    by blast
  moreover have "[1 .. int (length [two_names_image])] = [1]"
    "[1 .. int (length (all_annotations [two_names_image]))] = [1, 2]"
    by (simp_all add: two_names_all upto.simps)
  ultimately show ?thesis using f by auto
qed

section \<open>Importing: resolving image files\<close>


lemma resolve_file_proper: "proper_paths pf \<Longrightarrow> resolve_file pf base fname \<noteq> Some []"
  by (auto simp: resolve_file_def Let_def proper_paths_def split: option.splits if_splits)

lemma find_absent: "i \<notin> set (map f xs) \<Longrightarrow> find (\<lambda>x. f x = i) xs = None"
  by (induction xs) auto

lemma match_images_get:
  "distinct (map ci_id imgs) \<Longrightarrow>
   dict_get (match_images_to_files pf base imgs acc) i =
     (case find (\<lambda>img. ci_id img = i) imgs of
        None \<Rightarrow> dict_get acc i
      | Some img \<Rightarrow>
          (case resolve_file pf base (ci_file_name img) of
             Some p \<Rightarrow> Some p
           | None \<Rightarrow> dict_get acc i))"
proof (induction imgs arbitrary: acc)
  case Nil
  then show ?case by simp
next
  case (Cons img imgs)
  from Cons.prems have d: "distinct (map ci_id imgs)" and n: "ci_id img \<notin> set (map ci_id imgs)"
    by simp_all
  show ?case
  proof (cases "ci_id img = i")
    case True
    with n have "find (\<lambda>x. ci_id x = i) imgs = None"
      by (intro find_absent) simp
    with True show ?thesis
      by (simp add: Cons.IH [OF d] dict_get_dict_set split: option.splits)
  next
    case False
    then show ?thesis
      by (simp add: Cons.IH [OF d] dict_get_dict_set split: option.splits)
  qed
qed

lemma match_images_member:
  assumes "distinct (map ci_id imgs)" and "img \<in> set imgs"
  shows "dict_get (match_images_to_files pf base imgs []) (ci_id img)
           = resolve_file pf base (ci_file_name img)"
proof -
  from assms have "find (\<lambda>x. ci_id x = ci_id img) imgs = Some img"
  proof (induction imgs)
    case Nil
    then show ?case by simp
  next
    case (Cons x xs)
    then show ?case by (cases "x = img") (auto simp: image_iff)
  qed
  moreover have "dict_get ([] :: (int \<times> string) list) (ci_id img) = None"
    by (simp add: dict_get_def)
  ultimately show ?thesis
    by (simp add: match_images_get [OF assms(1)] split: option.splits)
qed

lemma build_image_metadata_closed:
  assumes "\<forall>img \<in> set imgs. dict_get m (ci_id img) = resolve_file pf base (ci_file_name img)"
    and "proper_paths pf"
  shows "build_image_metadata pf rnd m by_image k imgs = resolved_images pf rnd base by_image k imgs"
  using assms(1)
proof (induction imgs arbitrary: k)
  case Nil
  then show ?case by simp
next
  case (Cons img imgs)
  then show ?case
    using resolve_file_proper [OF assms(2), of base "ci_file_name img"]
    by (auto split: option.splits)
qed

lemma import_from_coco_closed:
  assumes "files pf coco_path = Some (JsonDoc coco)"
    and "cd_images coco = Some imgs" "cd_annotations coco = Some anns" "cd_categories coco = Some cats"
    and "distinct (map ci_id imgs)" "proper_paths pf"
  shows "import_from_coco pf rnd coco_path base_image_path =
           (case convert_annotations rnd (build_label_map cats) 0 anns [] of
              Inl e \<Rightarrow> Inl e
            | Inr by_image \<Rightarrow>
                Inr (resolved_images pf rnd (import_base pf coco_path base_image_path) by_image 0 imgs,
                     build_label_map cats))"
proof -
  let ?base = "import_base pf coco_path base_image_path"
  have b: "build_image_metadata pf rnd (match_images_to_files pf ?base imgs []) by_image 0 imgs
             = resolved_images pf rnd ?base by_image 0 imgs" for by_image
    by (rule build_image_metadata_closed)
       (use assms(5,6) in \<open>simp_all add: match_images_member\<close>)
  show ?thesis
    using assms(1-4)
    by (simp add: import_from_coco_def path_exists_def is_file_def validate_coco_format_def
        Let_def b import_base_def [symmetric] split: sum.splits)
qed


lemma convert_annotations_total:
  "bboxes_complete anns \<Longrightarrow> \<exists>by_image. convert_annotations rnd lm k anns acc = Inr by_image"
proof (induction anns arbitrary: k acc)
  case Nil
  then show ?case by simp
next
  case (Cons c anns)
  from Cons.prems have l: "4 \<le> length (ca_bbox c)" and r: "bboxes_complete anns"
    by (simp_all add: bboxes_complete_def)
  from l obtain bx "by" bw bh rest where "ca_bbox c = bx # by # bw # bh # rest"
    by (cases "ca_bbox c" rule: list.exhaust; simp)
       (metis (no_types) Suc_le_length_iff numeral_3_eq_3 One_nat_def Suc_le_mono length_Cons list.size(3) not_less_eq_eq le0)
  then show ?case
    using Cons.IH [OF r] by (simp add: Let_def)
qed



lemma sample_files:
  "is_file (with_file sample_platform p c) q \<longleftrightarrow> q = p \<or> q = ''/data/a.jpg'' \<or> q = ''/data/sub/c.jpg''"
  by (auto simp: is_file_def with_file_def sample_platform_def)

lemma sample_paths:
  "path_join (with_file sample_platform p c) b n = b @ ''/'' @ n"
  "path_absolute (with_file sample_platform p c) q = (if q = [] then ''/data'' else q)"
  "path_parent (with_file sample_platform p c) ''/data/coco.json'' = ''/data''"
  "path_parent (with_file sample_platform p c) ''/data/dup.json'' = ''/data''"
  "path_name (with_file sample_platform p c) ''a.jpg'' = ''a.jpg''"
  "path_name (with_file sample_platform p c) ''x/a.jpg'' = ''a.jpg''"
  "path_name (with_file sample_platform p c) ''c.jpg'' = ''c.jpg''"
  "path_name (with_file sample_platform p c) ''missing.jpg'' = ''missing.jpg''"
  "rglob (with_file sample_platform p c) b n
     = (if b = ''/data'' \<and> n = ''c.jpg'' then [''/data/sub/c.jpg''] else [])"
  "path_format (with_file sample_platform p c) q = []"
  "files (with_file sample_platform p c) p = Some c"
  by (simp_all add: with_file_def sample_platform_def)

lemma sample_resolve:
  "resolve_file (with_file sample_platform ''/data/coco.json'' c) ''/data'' ''a.jpg'' = Some ''/data/a.jpg''"
  "resolve_file (with_file sample_platform ''/data/coco.json'' c) ''/data'' ''x/a.jpg'' = Some ''/data/a.jpg''"
  "resolve_file (with_file sample_platform ''/data/coco.json'' c) ''/data'' ''c.jpg'' = Some ''/data/sub/c.jpg''"
  "resolve_file (with_file sample_platform ''/data/coco.json'' c) ''/data'' ''missing.jpg'' = None"
  "resolve_file (with_file sample_platform ''/data/dup.json'' c) ''/data'' ''a.jpg'' = Some ''/data/a.jpg''"
  "resolve_file (with_file sample_platform ''/data/dup.json'' c) ''/data'' ''missing.jpg'' = None"
  by (simp_all add: resolve_file_def path_exists_def sample_files sample_paths)





section \<open>The COCO round trip\<close>

lemma get_list_dict_set: "get_list (dict_set d k v) j = (if j = k then v else get_list d j)"
  by (simp add: get_list_def dict_get_dict_set)

lemma get_list_absent: "\<not> dict_has d k \<Longrightarrow> get_list d k = []"
  by (simp add: get_list_def dict_has_iff)

lemma convert_annotations_get:
  "convert_annotations rnd lm k anns acc = Inr by_image \<Longrightarrow>
   map label_and_box (get_list by_image j) =
     map label_and_box (get_list acc j)
     @ map entry_label_and_box (filter (\<lambda>c. ca_image_id c = j) anns)"
proof (induction anns arbitrary: k acc)
  case Nil
  then show ?case by simp
next
  case (Cons c anns)
  from Cons.prems obtain bx "by" bw bh rest where b: "ca_bbox c = bx # by # bw # bh # rest"
    by (auto split: list.splits)
  let ?a = "\<lparr>ann_id = ann_uuid rnd k,
             bounding_box = Some \<lparr>box_x = int_of_json bx, box_y = int_of_json by,
                                  box_width = int_of_json bw, box_height = int_of_json bh\<rparr>,
             label_id = ca_category_id c,
             label_name = (case dict_get lm (ca_category_id c) of
                             Some n \<Rightarrow> n
                           | None \<Rightarrow> ''unknown_'' @ py_str (ca_category_id c)),
             image_id = [], created_at = ann_created rnd k, modified_at = ann_modified rnd k\<rparr>"
  let ?acc1 = "if \<not> dict_has acc (ca_image_id c) then dict_set acc (ca_image_id c) [] else acc"
  let ?acc2 = "dict_set ?acc1 (ca_image_id c) (get_list ?acc1 (ca_image_id c) @ [?a])"
  have g1: "get_list ?acc1 i = get_list acc i" for i
    by (simp add: get_list_dict_set get_list_absent)
  have g2: "get_list ?acc2 i = (if i = ca_image_id c then get_list acc i @ [?a] else get_list acc i)" for i
    unfolding get_list_dict_set g1 by simp
  from Cons.prems b have "convert_annotations rnd lm (Suc k) anns ?acc2 = Inr by_image"
    by (simp add: Let_def)
  from Cons.IH [OF this] have "map label_and_box (get_list by_image j) =
     map label_and_box (get_list ?acc2 j)
     @ map entry_label_and_box (filter (\<lambda>c. ca_image_id c = j) anns)" .
  moreover have "entry_label_and_box c = label_and_box ?a"
    by (simp add: entry_label_and_box_def label_and_box_def bbox_box_def b)
  ultimately show ?case
    unfolding g2 by simp
qed

lemma annotation_entries_image_id:
  "c \<in> set (annotation_entries aid idx anns) \<Longrightarrow> ca_image_id c = idx"
  by (induction anns arbitrary: aid) (auto simp: coco_annotation_entry_def)

lemma all_entries_image_id:
  "c \<in> set (all_entries aid idx imgs) \<Longrightarrow> idx \<le> ca_image_id c"
proof (induction imgs arbitrary: aid idx)
  case Nil
  then show ?case by simp
next
  case (Cons img imgs)
  from Cons.prems consider "c \<in> set (annotation_entries aid idx (annotations img))"
    | "c \<in> set (all_entries (aid + int (length (annotations img))) (idx + 1) imgs)"
    by auto
  then show ?case
  proof cases
    case 1
    then show ?thesis by (simp add: annotation_entries_image_id)
  next
    case 2
    from Cons.IH [OF this] show ?thesis by simp
  qed
qed

lemma annotation_entries_labels:
  "boxes_present anns \<Longrightarrow>
   map entry_label_and_box (annotation_entries aid idx anns) = map label_and_box anns"
  by (induction anns arbitrary: aid)
     (auto simp: boxes_present_simps coco_annotation_entry_def entry_label_and_box_def
           label_and_box_def bbox_box_def)

lemma annotation_entries_complete: "bboxes_complete (annotation_entries aid idx anns)"
  by (induction anns arbitrary: aid) (auto simp: bboxes_complete_def coco_annotation_entry_def)

lemma all_entries_complete: "bboxes_complete (all_entries aid idx imgs)"
proof (induction imgs arbitrary: aid idx)
  case Nil
  then show ?case by (simp add: bboxes_complete_def)
next
  case (Cons img imgs)
  then show ?case
    using annotation_entries_complete [of aid idx "annotations img"]
    by (auto simp: bboxes_complete_def)
qed

lemma filter_none: "(\<And>x. x \<in> set xs \<Longrightarrow> \<not> P x) \<Longrightarrow> filter P xs = []"
  by (induction xs) auto

lemma filter_all: "(\<And>x. x \<in> set xs \<Longrightarrow> P x) \<Longrightarrow> filter P xs = xs"
  by (induction xs) auto

lemma image_entries_id_bound: "e \<in> set (image_entries idx imgs) \<Longrightarrow> idx \<le> ci_id e"
proof (induction imgs arbitrary: idx)
  case Nil
  then show ?case by simp
next
  case (Cons img imgs)
  from Cons.prems consider "e = coco_image_entry idx img" | "e \<in> set (image_entries (idx + 1) imgs)"
    by auto
  then show ?case
  proof cases
    case 1
    then show ?thesis by (simp add: coco_image_entry_def)
  next
    case 2
    from Cons.IH [OF this] show ?thesis by simp
  qed
qed

lemma entries_by_image:
  assumes "boxes_present (all_annotations imgs)" and "\<And>c. c \<in> set pre \<Longrightarrow> ca_image_id c < idx"
  shows "map (\<lambda>e. map entry_label_and_box
                  (filter (\<lambda>c. ca_image_id c = ci_id e) (pre @ all_entries aid idx imgs)))
             (image_entries idx imgs)
         = map (\<lambda>img. map label_and_box (annotations img)) imgs"
  using assms
proof (induction imgs arbitrary: aid idx pre)
  case Nil
  then show ?case by simp
next
  case (Cons img imgs)
  let ?here = "annotation_entries aid idx (annotations img)"
  let ?later = "all_entries (aid + int (length (annotations img))) (idx + 1) imgs"
  from Cons.prems(1) have bh: "boxes_present (annotations img)" and bl: "boxes_present (all_annotations imgs)"
    by (simp_all add: all_annotations_simps boxes_present_simps)
  have f1: "filter (\<lambda>c. ca_image_id c = idx) pre = []"
    using Cons.prems(2) by (intro filter_none) fastforce
  have f2: "filter (\<lambda>c. ca_image_id c = idx) ?here = ?here"
    by (intro filter_all) (simp add: annotation_entries_image_id)
  have f3: "filter (\<lambda>c. ca_image_id c = idx) ?later = []"
    using all_entries_image_id [of _ "aid + int (length (annotations img))" "idx + 1" imgs]
    by (intro filter_none) fastforce
  have head: "map entry_label_and_box
                (filter (\<lambda>c. ca_image_id c = ci_id (coco_image_entry idx img)) (pre @ ?here @ ?later))
              = map label_and_box (annotations img)"
    using f1 f2 f3 by (simp add: coco_image_entry_def annotation_entries_labels [OF bh])
  have p: "\<And>c. c \<in> set (pre @ ?here) \<Longrightarrow> ca_image_id c < idx + 1"
    using Cons.prems(2) annotation_entries_image_id [of _ aid idx "annotations img"] by fastforce
  have tail: "map (\<lambda>e. map entry_label_and_box
                  (filter (\<lambda>c. ca_image_id c = ci_id e) ((pre @ ?here) @ ?later)))
             (image_entries (idx + 1) imgs)
         = map (\<lambda>img. map label_and_box (annotations img)) imgs"
    by (rule Cons.IH [OF bl p])
  show ?case
    using head tail by simp
qed

lemma resolved_images_all:
  "(\<And>e. e \<in> set es \<Longrightarrow> resolve_file pf base (ci_file_name e) \<noteq> None) \<Longrightarrow>
   map annotations (resolved_images pf rnd base by_image k es) = map (\<lambda>e. get_list by_image (ci_id e)) es
   \<and> map filename (resolved_images pf rnd base by_image k es) = map ci_file_name es"
  by (induction es arbitrary: k) (auto split: option.splits)

lemma proper_paths_files: "proper_paths (pf\<lparr>files := f\<rparr>) = proper_paths pf"
  by (simp add: proper_paths_def)

lemma roundtrip_import:
  assumes ne: "all_annotations imgs \<noteq> []"
    and bp: "boxes_present (all_annotations imgs)"
    and pp: "proper_paths pf"
    and pf': "pf' = pf\<lparr>files := (files pf)(out \<mapsto> JsonDoc (export_document yr created imgs))\<rparr>"
    and rs: "\<And>img. img \<in> set imgs
               \<Longrightarrow> resolve_file pf' (import_base pf' out base_image_path) (filename img) \<noteq> None"
  shows "\<exists>imported lm. import_from_coco pf' rnd out base_image_path = Inr (imported, lm) \<and>
           map filename imported = map filename imgs \<and>
           map (\<lambda>i. map label_and_box (annotations i)) imported
             = map (\<lambda>i. map label_and_box (annotations i)) imgs"
proof -
  let ?doc = "export_document yr created imgs"
  let ?es = "image_entries 1 imgs"
  let ?as = "all_entries 1 1 imgs"
  let ?lm = "build_label_map (category_entries (foldl track_category [] (all_annotations imgs)))"
  let ?base = "import_base pf' out base_image_path"
  have f: "files pf' out = Some (JsonDoc ?doc)"
    unfolding pf' by simp
  have d: "cd_images ?doc = Some ?es" "cd_annotations ?doc = Some ?as"
    "cd_categories ?doc = Some (category_entries (foldl track_category [] (all_annotations imgs)))"
    by (simp_all add: export_document_def)
  have di: "distinct (map ci_id ?es)"
    by (simp add: image_entries_ids)
  have pp': "proper_paths pf'"
    unfolding pf' proper_paths_files by (rule pp)
  obtain by_image where c: "convert_annotations rnd ?lm 0 ?as [] = Inr by_image"
    using convert_annotations_total [OF all_entries_complete, of rnd ?lm 0 1 1 imgs "[]"] by blast
  let ?imported = "resolved_images pf' rnd ?base by_image 0 ?es"
  have i: "import_from_coco pf' rnd out base_image_path = Inr (?imported, ?lm)"
    using import_from_coco_closed [OF f d di pp', of rnd base_image_path] c by simp
  have r: "resolve_file pf' ?base (ci_file_name e) \<noteq> None" if "e \<in> set ?es" for e
  proof -
    from that have "ci_file_name e \<in> set (map ci_file_name ?es)" by simp
    then obtain img where "img \<in> set imgs" "ci_file_name e = filename img"
      unfolding image_entries_names by auto
    with rs show ?thesis by simp
  qed
  from resolved_images_all [of ?es pf' ?base rnd by_image 0] r
  have a: "map annotations ?imported = map (\<lambda>e. get_list by_image (ci_id e)) ?es"
    and n: "map filename ?imported = map ci_file_name ?es"
    by blast+
  have e0: "get_list ([] :: (int \<times> Annotation list) list) j = []" for j
    by (simp add: get_list_def dict_get_def)
  have g: "map label_and_box (get_list by_image j)
             = map entry_label_and_box (filter (\<lambda>c. ca_image_id c = j) ([] @ ?as))" for j
    using convert_annotations_get [OF c, of j] by (simp add: e0)
  have "map (\<lambda>i. map label_and_box (annotations i)) ?imported
          = map (map label_and_box) (map annotations ?imported)"
    by simp
  also have "\<dots> = map (\<lambda>e. map label_and_box (get_list by_image (ci_id e))) ?es"
    unfolding a by simp
  also have "\<dots> = map (\<lambda>e. map entry_label_and_box
                           (filter (\<lambda>c. ca_image_id c = ci_id e) ([] @ ?as))) ?es"
    unfolding g ..
  also have "\<dots> = map (\<lambda>img. map label_and_box (annotations img)) imgs"
    by (rule entries_by_image [OF bp]) simp
  finally have m: "map (\<lambda>i. map label_and_box (annotations i)) ?imported
          = map (\<lambda>i. map label_and_box (annotations i)) imgs" .
  from n have n': "map filename ?imported = map filename imgs"
    by (simp add: image_entries_names)
  from i n' m show ?thesis by blast
qed

lemma per_image_to_all:
  assumes "map (\<lambda>i. map f (annotations i)) xs = map (\<lambda>i. map f (annotations i)) ys"
  shows "map f (all_annotations xs) = map f (all_annotations ys)"
proof -
  have "map f (all_annotations zs) = concat (map (\<lambda>i. map f (annotations i)) zs)" for zs
    by (simp add: all_annotations_def map_concat comp_def)
  with assms show ?thesis by simp
qed

text \<open>
  C1. Take a list of images with at least one annotation in total, each annotation
  with a bounding box, on a platform where the output file can be written and every
  image's file name resolves to a file (and \<open>absolute()\<close> never gives the empty path).
  Then \<open>export_to_coco\<close> succeeds, and \<open>import_from_coco\<close> on the file it wrote returns
  as many images as were exported, with the same file names, whose annotations carry,
  image by image and in order, the same \<open>(label_id, bbox)\<close> pairs as the exported ones;
  so the import yields exactly M annotations with matching pairs. The imported
  annotation ids are fresh values and are not compared.
\<close>

theorem coco_roundtrip:
  "all_annotations imgs \<noteq> [] \<and> boxes_present (all_annotations imgs) \<and>
   writable pf out \<and> proper_paths pf \<and>
   (\<forall>img \<in> set imgs.
      resolve_file (snd (export_to_coco pf yr created imgs out))
        (import_base (snd (export_to_coco pf yr created imgs out)) out base_image_path)
        (filename img) \<noteq> None)
   \<longrightarrow>
   fst (export_to_coco pf yr created imgs out) = Inr () \<and>
   (\<exists>imported lm.
      import_from_coco (snd (export_to_coco pf yr created imgs out)) rnd out base_image_path
        = Inr (imported, lm) \<and>
      length imported = length imgs \<and>
      map filename imported = map filename imgs \<and>
      map (\<lambda>i. map label_and_box (annotations i)) imported
        = map (\<lambda>i. map label_and_box (annotations i)) imgs \<and>
      map label_and_box (all_annotations imported) = map label_and_box (all_annotations imgs) \<and>
      length (all_annotations imported) = length (all_annotations imgs))"
proof
  let ?pf' = "pf\<lparr>files := (files pf)(out \<mapsto> JsonDoc (export_document yr created imgs))\<rparr>"
  assume h: "all_annotations imgs \<noteq> [] \<and> boxes_present (all_annotations imgs) \<and>
   writable pf out \<and> proper_paths pf \<and>
   (\<forall>img \<in> set imgs.
      resolve_file (snd (export_to_coco pf yr created imgs out))
        (import_base (snd (export_to_coco pf yr created imgs out)) out base_image_path)
        (filename img) \<noteq> None)"
  then have ne: "all_annotations imgs \<noteq> []" and bp: "boxes_present (all_annotations imgs)"
    and w: "writable pf out" and pp: "proper_paths pf"
    by simp_all
  from ne have "imgs \<noteq> []"
    by (auto simp: all_annotations_def)
  with ne bp w have e: "export_to_coco pf yr created imgs out = (Inr (), ?pf')"
    by (simp add: export_to_coco_closed)
  from h have rs: "\<And>img. img \<in> set imgs
      \<Longrightarrow> resolve_file ?pf' (import_base ?pf' out base_image_path) (filename img) \<noteq> None"
    unfolding e by simp
  from roundtrip_import [OF ne bp pp refl rs, of rnd]
  obtain imported lm where i: "import_from_coco ?pf' rnd out base_image_path = Inr (imported, lm)"
    and n: "map filename imported = map filename imgs"
    and m: "map (\<lambda>i. map label_and_box (annotations i)) imported
             = map (\<lambda>i. map label_and_box (annotations i)) imgs"
    by blast
  from n have l: "length imported = length imgs"
    by (rule map_eq_imp_length_eq)
  from m have a: "map label_and_box (all_annotations imported) = map label_and_box (all_annotations imgs)"
    by (rule per_image_to_all)
  then have la: "length (all_annotations imported) = length (all_annotations imgs)"
    by (rule map_eq_imp_length_eq)
  have "\<exists>imported lm.
      import_from_coco ?pf' rnd out base_image_path = Inr (imported, lm) \<and>
      length imported = length imgs \<and>
      map filename imported = map filename imgs \<and>
      map (\<lambda>i. map label_and_box (annotations i)) imported
        = map (\<lambda>i. map label_and_box (annotations i)) imgs \<and>
      map label_and_box (all_annotations imported) = map label_and_box (all_annotations imgs) \<and>
      length (all_annotations imported) = length (all_annotations imgs)"
    apply (rule exI [of _ imported])
    apply (rule exI [of _ lm])
    apply (intro conjI)
    apply (fact i l n m a la)+
    done
  then show "fst (export_to_coco pf yr created imgs out) = Inr () \<and>
   (\<exists>imported lm.
      import_from_coco (snd (export_to_coco pf yr created imgs out)) rnd out base_image_path
        = Inr (imported, lm) \<and>
      length imported = length imgs \<and>
      map filename imported = map filename imgs \<and>
      map (\<lambda>i. map label_and_box (annotations i)) imported
        = map (\<lambda>i. map label_and_box (annotations i)) imgs \<and>
      map label_and_box (all_annotations imported) = map label_and_box (all_annotations imgs) \<and>
      length (all_annotations imported) = length (all_annotations imgs))"
    unfolding e by simp
qed

theorem coco_roundtrip_witness:
  "fst (export_to_coco sample_platform 2024 ''now'' [two_names_image] ''/data/coco.json'') = Inr () \<and>
   (\<exists>imported lm.
      import_from_coco (snd (export_to_coco sample_platform 2024 ''now'' [two_names_image] ''/data/coco.json''))
        sample_entropy ''/data/coco.json'' None = Inr (imported, lm) \<and>
      length imported = 1 \<and>
      map label_and_box (all_annotations imported) = [(1, Some sample_box), (1, Some sample_box)])"
proof -
  let ?e = "export_to_coco sample_platform 2024 ''now'' [two_names_image] ''/data/coco.json''"
  have s: "snd ?e = with_file sample_platform ''/data/coco.json''
                      (JsonDoc (export_document 2024 ''now'' [two_names_image]))"
    by (simp add: export_to_coco_closed two_names_all boxes_present_def sample_annotation_def
        sample_platform_def with_file_def)
  have h1: "all_annotations [two_names_image] \<noteq> []"
    and h2: "boxes_present (all_annotations [two_names_image])"
    by (simp_all add: two_names_all boxes_present_def sample_annotation_def)
  have h3: "writable sample_platform ''/data/coco.json''"
    and h4: "proper_paths sample_platform"
    by (simp_all add: proper_paths_def sample_platform_def)
  have fn: "filename two_names_image = ''a.jpg''"
    by (simp add: two_names_image_def)
  have h5: "\<forall>img \<in> set [two_names_image].
        resolve_file (snd ?e) (import_base (snd ?e) ''/data/coco.json'' None) (filename img) \<noteq> None"
    unfolding s by (simp add: fn sample_resolve import_base_def sample_paths)
  from h1 h2 h3 h4 h5
  have h: "all_annotations [two_names_image] \<noteq> [] \<and> boxes_present (all_annotations [two_names_image]) \<and>
     writable sample_platform ''/data/coco.json'' \<and> proper_paths sample_platform \<and>
     (\<forall>img \<in> set [two_names_image].
        resolve_file (snd ?e) (import_base (snd ?e) ''/data/coco.json'' None) (filename img) \<noteq> None)"
    by (intro conjI)
  from h coco_roundtrip [of "[two_names_image]" sample_platform "''/data/coco.json''" 2024 "''now''"
      None sample_entropy]
  obtain imported lm where f: "fst ?e = Inr ()"
    and i: "import_from_coco (snd ?e) sample_entropy ''/data/coco.json'' None = Inr (imported, lm)"
    and l: "length imported = length [two_names_image]"
    and a: "map label_and_box (all_annotations imported)
              = map label_and_box (all_annotations [two_names_image])"
    by blast
  from a have "map label_and_box (all_annotations imported) = [(1, Some sample_box), (1, Some sample_box)]"
    by (simp add: two_names_all label_and_box_def sample_annotation_def)
  with f i l show ?thesis by auto
qed

end
